theory Spec2Isabelle
  imports Complex_Main "HOL-Library.Word" "HOL-Library.Log_Nat"
begin

section \<open>Error values of \<^verbatim>\<open>core/connection.go\<close>\<close>

text \<open>
  A Go \<^verbatim>\<open>error\<close> variable is either \<^verbatim>\<open>nil\<close> or holds an error value, so it is an
  \<open>error option\<close> here and \<open>None\<close> is \<^verbatim>\<open>nil\<close>. The error values that the retry core
  tells apart are: a plain error with a message (\<^verbatim>\<open>fmt.Errorf\<close>, \<^verbatim>\<open>errors.New\<close>), the
  two wrapper structs of \<^verbatim>\<open>connection.go\<close> with their \<^verbatim>\<open>Inner\<close> field, the
  \<^verbatim>\<open>*backoff.PermanentError\<close> that \<^verbatim>\<open>backoff.Permanent\<close> builds (field \<^verbatim>\<open>Err\<close>), and
  \<^verbatim>\<open>context.Canceled\<close>.
\<close>

datatype error =
    ErrorString string
  | Canceled
  | PermanentError "error option"
  | TransientError "error option"
  | BackoffPermanent error

text \<open>
  \<^verbatim>\<open>func (e PermanentError) Error() string { return e.Inner.Error() }\<close>, the same for
  \<^verbatim>\<open>TransientError\<close>; \<^verbatim>\<open>*backoff.PermanentError\<close> returns \<^verbatim>\<open>e.Err.Error()\<close>. Calling
  \<^verbatim>\<open>Error\<close> on a nil \<^verbatim>\<open>Inner\<close> is a nil dereference: the call panics, which is the
  value \<open>None\<close>.
\<close>

fun Error :: "error \<Rightarrow> string option" where
  "Error (ErrorString s) = Some s"
| "Error Canceled = Some ''context canceled''"
| "Error (PermanentError None) = None"
| "Error (PermanentError (Some e)) = Error e"
| "Error (TransientError None) = None"
| "Error (TransientError (Some e)) = Error e"
| "Error (BackoffPermanent e) = Error e"

text \<open>
  The methods of the two wrapper structs. The receiver is the struct value, given by
  its only field \<^verbatim>\<open>Inner\<close>.
  \<^verbatim>\<open>func (e PermanentError) Unwrap() error { return e.Inner }\<close>
  \<^verbatim>\<open>func (e PermanentError) Is(err error) bool { _, ok := err.(PermanentError); return ok }\<close>
\<close>

definition PermanentError_Error :: "error option \<Rightarrow> string option" where
  "PermanentError_Error Inner = Error (PermanentError Inner)"

definition PermanentError_Unwrap :: "error option \<Rightarrow> error option" where
  "PermanentError_Unwrap Inner = Inner"

definition PermanentError_Is :: "error option \<Rightarrow> error option \<Rightarrow> bool" where
  "PermanentError_Is Inner err =
     (case err of Some (PermanentError _) \<Rightarrow> True | _ \<Rightarrow> False)"

definition TransientError_Error :: "error option \<Rightarrow> string option" where
  "TransientError_Error Inner = Error (TransientError Inner)"

definition TransientError_Unwrap :: "error option \<Rightarrow> error option" where
  "TransientError_Unwrap Inner = Inner"

definition TransientError_Is :: "error option \<Rightarrow> error option \<Rightarrow> bool" where
  "TransientError_Is Inner err =
     (case err of Some (TransientError _) \<Rightarrow> True | _ \<Rightarrow> False)"

text \<open>
  \<^verbatim>\<open>errors.Unwrap\<close>: the \<^verbatim>\<open>Unwrap\<close> method of the value's type, \<^verbatim>\<open>nil\<close> for a type
  without one.
\<close>

fun Unwrap :: "error \<Rightarrow> error option" where
  "Unwrap (ErrorString s) = None"
| "Unwrap Canceled = None"
| "Unwrap (PermanentError Inner) = PermanentError_Unwrap Inner"
| "Unwrap (TransientError Inner) = TransientError_Unwrap Inner"
| "Unwrap (BackoffPermanent e) = Some e"

section \<open>The backoff library as \<^verbatim>\<open>connection.go\<close> uses it\<close>

text \<open>
  \<^verbatim>\<open>connection.go\<close> imports \<^verbatim>\<open>github.com/cenkalti/backoff/v4\<close> and calls
  \<^verbatim>\<open>Permanent\<close>, \<^verbatim>\<open>WithRandomizationFactor\<close>, \<^verbatim>\<open>WithInitialInterval\<close>,
  \<^verbatim>\<open>WithMultiplier\<close>, \<^verbatim>\<open>NewExponentialBackOff\<close>, \<^verbatim>\<open>WithMaxRetries\<close>, \<^verbatim>\<open>Retry\<close> and
  \<^verbatim>\<open>RetryWithData\<close>. The library is not part of the repository; what follows is a
  translation of these functions, and of those they call, from the library's sources
  (\<^verbatim>\<open>exponential.go\<close>, \<^verbatim>\<open>tries.go\<close>, \<^verbatim>\<open>context.go\<close>, \<^verbatim>\<open>retry.go\<close> of release 4.3.0,
  the release of version 4 whose \<^verbatim>\<open>NewExponentialBackOff\<close> takes options). The constants
  are those of \<^verbatim>\<open>exponential.go\<close>:
  \<^verbatim>\<open>
  DefaultInitialInterval     = 500 * time.Millisecond
  DefaultRandomizationFactor = 0.5
  DefaultMultiplier          = 1.5
  DefaultMaxInterval         = 60 * time.Second
  DefaultMaxElapsedTime      = 15 * time.Minute
  \<close>
  and \<^verbatim>\<open>const Stop time.Duration = -1\<close> of \<^verbatim>\<open>backoff.go\<close>.

  A \<^verbatim>\<open>time.Duration\<close> is an \<open>int\<close> of nanoseconds; where the machine computes
  one, the wrap-around of \<^verbatim>\<open>int64\<close> is written out.
\<close>

definition Millisecond :: int where "Millisecond = 1000000"
definition Second :: int where "Second = 1000 * Millisecond"
definition Minute :: int where "Minute = 60 * Second"

definition Stop :: int where "Stop = - 1"

definition DefaultInitialInterval :: int where "DefaultInitialInterval = 500 * Millisecond"
definition DefaultRandomizationFactor :: real where "DefaultRandomizationFactor = 1 / 2"
definition DefaultMultiplier :: real where "DefaultMultiplier = 3 / 2"
definition DefaultMaxInterval :: int where "DefaultMaxInterval = 60 * Second"
definition DefaultMaxElapsedTime :: int where "DefaultMaxElapsedTime = 15 * Minute"

text \<open>
  \<^verbatim>\<open>func Permanent(err error) error\<close>: \<^verbatim>\<open>nil\<close> stays \<^verbatim>\<open>nil\<close>, any other error is
  wrapped in a \<^verbatim>\<open>*PermanentError\<close>.
\<close>

definition Permanent :: "error option \<Rightarrow> error option" where
  "Permanent err = (case err of None \<Rightarrow> None | Some e \<Rightarrow> Some (BackoffPermanent e))"

text \<open>
  \<^verbatim>\<open>errors.As(err, &permanent)\<close> with \<^verbatim>\<open>permanent\<close> of type \<^verbatim>\<open>*backoff.PermanentError\<close>:
  the first \<^verbatim>\<open>*backoff.PermanentError\<close> on the \<^verbatim>\<open>Unwrap\<close> chain of \<^verbatim>\<open>err\<close>. The result is
  its field \<^verbatim>\<open>Err\<close>, which is what the retry loop returns.
\<close>

fun errors_As_Permanent :: "error \<Rightarrow> error option" where
  "errors_As_Permanent (BackoffPermanent e) = Some e"
| "errors_As_Permanent (ErrorString s) = None"
| "errors_As_Permanent Canceled = None"
| "errors_As_Permanent (PermanentError None) = None"
| "errors_As_Permanent (PermanentError (Some e)) = errors_As_Permanent e"
| "errors_As_Permanent (TransientError None) = None"
| "errors_As_Permanent (TransientError (Some e)) = errors_As_Permanent e"

subsection \<open>Machine numbers\<close>

text \<open>
  \<^verbatim>\<open>int64\<close> arithmetic wraps around: \<open>int64 n\<close> is the number that the low 64 bits
  of \<open>n\<close> denote as a signed integer.
\<close>

definition int64 :: "int \<Rightarrow> int" where
  "int64 n = (n + 2 ^ 63) mod 2 ^ 64 - 2 ^ 63"

text \<open>
  A \<^verbatim>\<open>float64\<close> is given by the real number it holds. Every \<^verbatim>\<open>float64\<close> operation
  of Go, and the conversion of an \<^verbatim>\<open>int64\<close> to \<^verbatim>\<open>float64\<close>, yields the \<^verbatim>\<open>float64\<close>
  nearest to the exact result, and of two that are equally near the one with the even
  significand (IEEE 754 binary64, round to nearest even). \<open>float64 x\<close> is that number for
  the real \<open>x\<close>; the Go product \<^verbatim>\<open>a * b\<close> is \<open>float64 (a * b)\<close>. The significand has 53
  bits: for \<open>2 ^ e \<le> \<bar>x\<bar> < 2 ^ (e + 1)\<close> the \<^verbatim>\<open>float64\<close> numbers around \<open>x\<close> are the
  multiples of \<open>2 ^ (e - 52)\<close>, and the multiples of \<open>2 ^ (- 1074)\<close> where that is
  coarser (the subnormal numbers). \<open>float64_exponent x\<close> is this \<open>e\<close>, computed from the
  number of bits of \<open>\<lfloor>\<bar>x\<bar>\<rfloor>\<close>, and of \<open>\<lceil>1 / \<bar>x\<bar>\<rceil> - 1\<close> below 1.

  Outside these definitions: a result of magnitude \<open>2 ^ 1024\<close> or more is an infinity in
  Go and a finite number here; in what \<^verbatim>\<open>Retry\<close> and \<^verbatim>\<open>RetryWithData\<close> reach, such a
  result is only compared with a number of magnitude at most \<open>2 ^ 63\<close> or converted to
  \<^verbatim>\<open>int64\<close>, and both come out as for the infinity. NaN and the negative zero could
  only enter as the argument \<^verbatim>\<open>factor\<close>, which is a real number here. A division by
  zero is written out where it occurs.
\<close>

definition float64_exponent :: "real \<Rightarrow> int" where
  "float64_exponent x =
     (if 1 \<le> \<bar>x\<bar> then bitlen \<lfloor>\<bar>x\<bar>\<rfloor> - 1 else - bitlen (\<lceil>1 / \<bar>x\<bar>\<rceil> - 1))"

definition round_half_even :: "real \<Rightarrow> int" where
  "round_half_even y =
     (let n = \<lfloor>y\<rfloor>; r = y - of_int n
      in if r < 1 / 2 then n else if 1 / 2 < r then n + 1 else if even n then n else n + 1)"

definition float64_quantum :: "real \<Rightarrow> int" where
  "float64_quantum x = max (float64_exponent x - 52) (- 1074)"

definition float64 :: "real \<Rightarrow> real" where
  "float64 x =
     (let q = float64_quantum x
      in of_int (round_half_even (x / 2 powi q)) * 2 powi q)"

text \<open>
  \<^verbatim>\<open>time.Duration(x)\<close> for a \<^verbatim>\<open>float64\<close> \<open>x\<close> truncates towards zero. When the truncated
  number is outside the \<^verbatim>\<open>int64\<close> range, the conversion succeeds and the Go
  specification leaves its result to the implementation: \<open>conv x\<close> is the 64 bits that
  the platform yields then, whatever they are. On amd64 they are those of the smallest
  \<^verbatim>\<open>int64\<close> every time.
\<close>

definition Duration_of_float :: "(real \<Rightarrow> 64 word) \<Rightarrow> real \<Rightarrow> int" where
  "Duration_of_float conv x =
     (let t = (if 0 \<le> x then \<lfloor>x\<rfloor> else \<lceil>x\<rceil>)
      in if - (2 ^ 63) \<le> t \<and> t < 2 ^ 63 then t else sint (conv x))"

definition amd64 :: "real \<Rightarrow> 64 word" where
  "amd64 x = 2 ^ 63"

text \<open>
  \<^verbatim>\<open>time.Duration(n)\<close> for a \<^verbatim>\<open>uint64\<close> \<open>n\<close> keeps the 64 bits and reads them as signed,
  and the product with \<^verbatim>\<open>time.Millisecond\<close> wraps in \<^verbatim>\<open>int64\<close>.
\<close>

definition Milliseconds :: "64 word \<Rightarrow> int" where
  "Milliseconds n = sint (1000000 * n)"

text \<open>
  \<^verbatim>\<open>t.Sub(u)\<close> of package \<^verbatim>\<open>time\<close>, on two readings of the clock in nanoseconds: their
  difference, which saturates at the largest and at the smallest \<^verbatim>\<open>Duration\<close>.
\<close>

definition Time_Sub :: "int \<Rightarrow> int \<Rightarrow> int" where
  "Time_Sub t u = max (- (2 ^ 63)) (min (2 ^ 63 - 1) (t - u))"

subsection \<open>The exponential backoff\<close>

text \<open>
  The fields of \<^verbatim>\<open>ExponentialBackOff\<close> that the code reads. The two \<^verbatim>\<open>float64\<close> fields
  hold \<^verbatim>\<open>float64\<close> numbers.
\<close>

record ExponentialBackOff =
  InitialInterval :: int
  RandomizationFactor :: real
  Multiplier :: real
  MaxInterval :: int
  MaxElapsedTime :: int
  currentInterval :: int
  startTime :: int

definition WithRandomizationFactor :: "real \<Rightarrow> ExponentialBackOff \<Rightarrow> ExponentialBackOff" where
  "WithRandomizationFactor r b = b\<lparr>RandomizationFactor := r\<rparr>"

definition WithInitialInterval :: "int \<Rightarrow> ExponentialBackOff \<Rightarrow> ExponentialBackOff" where
  "WithInitialInterval d b = b\<lparr>InitialInterval := d\<rparr>"

definition WithMultiplier :: "real \<Rightarrow> ExponentialBackOff \<Rightarrow> ExponentialBackOff" where
  "WithMultiplier m b = b\<lparr>Multiplier := m\<rparr>"

text \<open>
  \<^verbatim>\<open>Reset\<close> sets \<^verbatim>\<open>currentInterval = InitialInterval\<close> and \<^verbatim>\<open>startTime = Clock.Now()\<close>;
  the clock's reading is the argument \<open>now\<close>. \<^verbatim>\<open>NewExponentialBackOff(opts...)\<close> fills
  the struct with the defaults, applies the options in order and calls \<^verbatim>\<open>Reset\<close>. An
  option sets one field; \<^verbatim>\<open>connection.go\<close> passes no \<^verbatim>\<open>WithMaxInterval\<close> and no
  \<^verbatim>\<open>WithMaxElapsedTime\<close>, so these two fields keep their defaults.
\<close>

definition ExponentialBackOff_Reset :: "int \<Rightarrow> ExponentialBackOff \<Rightarrow> ExponentialBackOff" where
  "ExponentialBackOff_Reset now b = b\<lparr>currentInterval := InitialInterval b, startTime := now\<rparr>"

definition NewExponentialBackOff ::
  "int \<Rightarrow> (ExponentialBackOff \<Rightarrow> ExponentialBackOff) list \<Rightarrow> ExponentialBackOff" where
  "NewExponentialBackOff now opts =
     ExponentialBackOff_Reset now
       (fold (\<lambda>fn b. fn b) opts
          \<lparr>InitialInterval = DefaultInitialInterval,
           RandomizationFactor = DefaultRandomizationFactor,
           Multiplier = DefaultMultiplier,
           MaxInterval = DefaultMaxInterval,
           MaxElapsedTime = DefaultMaxElapsedTime,
           currentInterval = 0,
           startTime = 0\<rparr>)"

text \<open>
  \<^verbatim>\<open>getRandomValueFromInterval(randomizationFactor, random, currentInterval)\<close>, where
  \<open>random\<close> is the value \<^verbatim>\<open>rand.Float64()\<close> returned:
  \<^verbatim>\<open>
  if randomizationFactor == 0 { return currentInterval }
  var delta = randomizationFactor * float64(currentInterval)
  var minInterval = float64(currentInterval) - delta
  var maxInterval = float64(currentInterval) + delta
  return time.Duration(minInterval + (random * (maxInterval - minInterval + 1)))
  \<close>
  Each \<^verbatim>\<open>float64\<close> operation is rounded on its own. (On some platforms Go may fuse a
  product and a sum into one rounding; \<^verbatim>\<open>Retry\<close> and \<^verbatim>\<open>RetryWithData\<close> set the
  randomization factor 0 and never get past the first line.)
\<close>

definition getRandomValueFromInterval :: "(real \<Rightarrow> 64 word) \<Rightarrow> real \<Rightarrow> real \<Rightarrow> int \<Rightarrow> int" where
  "getRandomValueFromInterval conv randomizationFactor random cur =
     (if randomizationFactor = 0 then cur
      else
        let delta = float64 (randomizationFactor * float64 (of_int cur));
            minInterval = float64 (float64 (of_int cur) - delta);
            maxInterval = float64 (float64 (of_int cur) + delta)
        in Duration_of_float conv
             (float64 (minInterval + float64 (random * float64 (float64 (maxInterval - minInterval) + 1)))))"

text \<open>
  \<^verbatim>\<open>incrementCurrentInterval\<close>:
  \<^verbatim>\<open>if float64(b.currentInterval) >= float64(b.MaxInterval)/b.Multiplier\<close> then
  \<^verbatim>\<open>b.currentInterval = b.MaxInterval\<close>, else
  \<^verbatim>\<open>b.currentInterval = time.Duration(float64(b.currentInterval) * b.Multiplier)\<close>.
  In Go a positive number divided by \<open>0.0\<close> is \<open>+Inf\<close>, a negative one \<open>-Inf\<close> and
  \<open>0/0\<close> is NaN, so with a zero multiplier the comparison holds exactly when
  \<^verbatim>\<open>MaxInterval\<close> is negative (HOL's \<open>x / 0 = 0\<close> would say otherwise).
\<close>

definition incrementCurrentInterval ::
  "(real \<Rightarrow> 64 word) \<Rightarrow> ExponentialBackOff \<Rightarrow> ExponentialBackOff" where
  "incrementCurrentInterval conv b =
     (if (if Multiplier b = 0 then MaxInterval b < 0
          else float64 (of_int (currentInterval b))
                 \<ge> float64 (float64 (of_int (MaxInterval b)) / Multiplier b))
      then b\<lparr>currentInterval := MaxInterval b\<rparr>
      else b\<lparr>currentInterval :=
               Duration_of_float conv (float64 (float64 (of_int (currentInterval b)) * Multiplier b))\<rparr>)"

text \<open>
  \<^verbatim>\<open>(*ExponentialBackOff).NextBackOff\<close>:
  \<^verbatim>\<open>
  elapsed := b.GetElapsedTime()
  next := getRandomValueFromInterval(b.RandomizationFactor, rand.Float64(), b.currentInterval)
  b.incrementCurrentInterval()
  if b.MaxElapsedTime != 0 && elapsed+next > b.MaxElapsedTime { return b.Stop }
  return next
  \<close>
  \<open>now\<close> is the clock's reading (\<^verbatim>\<open>GetElapsedTime\<close> is \<^verbatim>\<open>Clock.Now().Sub(startTime)\<close>),
  \<open>random\<close> the value of \<^verbatim>\<open>rand.Float64()\<close>. The sum \<^verbatim>\<open>elapsed+next\<close> is an \<^verbatim>\<open>int64\<close>
  sum. The result is the delay (or \<^verbatim>\<open>Stop\<close>) and the updated object.
\<close>

definition ExponentialBackOff_NextBackOff ::
  "(real \<Rightarrow> 64 word) \<Rightarrow> ExponentialBackOff \<Rightarrow> int \<Rightarrow> real \<Rightarrow> int \<times> ExponentialBackOff" where
  "ExponentialBackOff_NextBackOff conv b now random =
     (let elapsed = Time_Sub now (startTime b);
          next = getRandomValueFromInterval conv (RandomizationFactor b) random (currentInterval b);
          b' = incrementCurrentInterval conv b
      in if MaxElapsedTime b \<noteq> 0 \<and> int64 (elapsed + next) > MaxElapsedTime b then (Stop, b')
         else (next, b'))"

text \<open>
  A \<^verbatim>\<open>context.Context\<close>, as far as the retry loop looks at it: the background context
  is never done; any other context is done from some instant of the clock on.
\<close>

datatype Context = Background | DoneAt int

definition ctx_Done :: "Context \<Rightarrow> int \<Rightarrow> bool" where
  "ctx_Done ctx now = (case ctx of Background \<Rightarrow> False | DoneAt t \<Rightarrow> t \<le> now)"

definition ctx_Err :: "Context \<Rightarrow> int \<Rightarrow> error option" where
  "ctx_Err ctx now = (if ctx_Done ctx now then Some Canceled else None)"

text \<open>
  The \<^verbatim>\<open>BackOff\<close> interface with its three implementations in the library that matter
  here: \<^verbatim>\<open>*ExponentialBackOff\<close>, \<^verbatim>\<open>*backOffTries\<close> (\<^verbatim>\<open>delegate\<close>, \<^verbatim>\<open>maxTries\<close>,
  \<^verbatim>\<open>numTries\<close>) and \<^verbatim>\<open>*backOffContext\<close> (the embedded \<^verbatim>\<open>BackOff\<close> and \<^verbatim>\<open>ctx\<close>). The
  counters are \<^verbatim>\<open>uint64\<close>; \<^verbatim>\<open>numTries\<close> is only incremented while it is below
  \<^verbatim>\<open>maxTries\<close>, so it never wraps and a \<open>nat\<close> holds it.
  \<^verbatim>\<open>
  func (b *backOffTries) NextBackOff() time.Duration {
      if b.maxTries == 0 { return Stop }
      if b.maxTries > 0 {
          if b.maxTries <= b.numTries { return Stop }
          b.numTries++
      }
      return b.delegate.NextBackOff()
  }
  func (b *backOffTries) Reset() { b.numTries = 0; b.delegate.Reset() }
  func (b *backOffContext) NextBackOff() time.Duration {
      select {
      case <-b.ctx.Done(): return Stop
      default: return b.BackOff.NextBackOff()
      }
  }
  func getContext(b BackOff) context.Context {
      if cb, ok := b.(BackOffContext); ok { return cb.Context() }
      if tb, ok := b.(*backOffTries); ok { return getContext(tb.delegate) }
      return context.Background()
  }
  \<close>
\<close>

datatype BackOff =
    Exponential ExponentialBackOff
  | BackOffTries BackOff nat nat
  | BackOffContext BackOff Context

definition WithMaxRetries :: "BackOff \<Rightarrow> nat \<Rightarrow> BackOff" where
  "WithMaxRetries b maxTries = BackOffTries b maxTries 0"

fun Reset :: "int \<Rightarrow> BackOff \<Rightarrow> BackOff" where
  "Reset now (Exponential b) = Exponential (ExponentialBackOff_Reset now b)"
| "Reset now (BackOffTries delegate maxTries numTries) = BackOffTries (Reset now delegate) maxTries 0"
| "Reset now (BackOffContext b ctx) = BackOffContext (Reset now b) ctx"

fun NextBackOff :: "(real \<Rightarrow> 64 word) \<Rightarrow> BackOff \<Rightarrow> int \<Rightarrow> real \<Rightarrow> int \<times> BackOff" where
  "NextBackOff conv (Exponential b) now random =
     (case ExponentialBackOff_NextBackOff conv b now random of (next, b') \<Rightarrow> (next, Exponential b'))"
| "NextBackOff conv (BackOffTries delegate maxTries numTries) now random =
     (if maxTries = 0 then (Stop, BackOffTries delegate maxTries numTries)
      else if maxTries \<le> numTries then (Stop, BackOffTries delegate maxTries numTries)
      else (case NextBackOff conv delegate now random of
              (next, delegate') \<Rightarrow> (next, BackOffTries delegate' maxTries (numTries + 1))))"
| "NextBackOff conv (BackOffContext b ctx) now random =
     (if ctx_Done ctx now then (Stop, BackOffContext b ctx)
      else (case NextBackOff conv b now random of (next, b') \<Rightarrow> (next, BackOffContext b' ctx)))"

fun getContext :: "BackOff \<Rightarrow> Context" where
  "getContext (BackOffContext b ctx) = ctx"
| "getContext (BackOffTries delegate maxTries numTries) = getContext delegate"
| "getContext (Exponential b) = Background"

section \<open>The retry loop\<close>

text \<open>
  The operation handed to the loop is a Go closure. Its behaviour over one run is given
  invocation by invocation: \<open>operation i\<close> is what the invocation number \<open>i\<close> (from 0)
  does, either returning or panicking, and how many nanoseconds it takes.
\<close>

datatype panic_value = PanicError error | PanicOther string

datatype 'r invocation = Returns 'r | Panics panic_value

text \<open>
  What a run leaves behind: how many times the operation was invoked, the delays
  handed to the timer in order, and the clock's reading. The clock advances by the
  duration of each invocation and by each sleep, and by nothing else.
\<close>

record trace =
  calls :: nat
  sleeps :: "int list"
  clock :: int

text \<open>
  The \<^verbatim>\<open>for\<close> loop of the library's \<^verbatim>\<open>doRetryNotify\<close>:
  \<^verbatim>\<open>
  for {
      res, err = operation()
      if err == nil { return res, nil }
      var permanent *PermanentError
      if errors.As(err, &permanent) { return res, permanent.Err }
      if next = b.NextBackOff(); next == Stop {
          if cerr := ctx.Err(); cerr != nil { return res, cerr }
          return res, err
      }
      t.Start(next)
      select {
      case <-ctx.Done(): return res, ctx.Err()
      case <-t.C():
      }
  }
  \<close>
  The loop may run forever, so it takes fuel, one unit per invocation of the operation,
  and \<open>None\<close> says that the fuel ran out before the loop returned. A panic of the
  operation leaves the loop, which has no \<^verbatim>\<open>recover\<close>. \<open>rand k\<close> is the value of
  \<^verbatim>\<open>rand.Float64()\<close> in the \<^verbatim>\<open>NextBackOff\<close> call after invocation \<open>k\<close>, and \<open>conv\<close>
  is what the platform makes of a \<^verbatim>\<open>float64\<close> that \<^verbatim>\<open>int64\<close> cannot hold. A timer started
  with a duration that is not positive fires at once. When the context is done before
  the timer fires, the \<^verbatim>\<open>select\<close> returns the context's error.
\<close>

fun doRetryNotify_loop ::
  "nat \<Rightarrow> (real \<Rightarrow> 64 word) \<Rightarrow> (nat \<Rightarrow> real) \<Rightarrow> Context \<Rightarrow> (nat \<Rightarrow> ('t \<times> error option) invocation \<times> nat)
     \<Rightarrow> BackOff \<Rightarrow> trace \<Rightarrow> (('t \<times> error option) invocation \<times> trace) option" where
  "doRetryNotify_loop 0 conv rand ctx operation b tr = None"
| "doRetryNotify_loop (Suc fuel) conv rand ctx operation b tr =
     (case operation (calls tr) of (r, dur) \<Rightarrow>
        let tr1 = tr\<lparr>calls := Suc (calls tr), clock := clock tr + int dur\<rparr> in
        (case r of
           Panics p \<Rightarrow> Some (Panics p, tr1)
         | Returns (res, None) \<Rightarrow> Some (Returns (res, None), tr1)
         | Returns (res, Some err) \<Rightarrow>
             (case errors_As_Permanent err of
                Some permanent_Err \<Rightarrow> Some (Returns (res, Some permanent_Err), tr1)
              | None \<Rightarrow>
                  (case NextBackOff conv b (clock tr1) (rand (calls tr)) of (next, b') \<Rightarrow>
                     if next = Stop then
                       (case ctx_Err ctx (clock tr1) of
                          Some cerr \<Rightarrow> Some (Returns (res, Some cerr), tr1)
                        | None \<Rightarrow> Some (Returns (res, Some err), tr1))
                     else
                       let wake = clock tr1 + max 0 next;
                           tr2 = tr1\<lparr>sleeps := sleeps tr1 @ [next]\<rparr>
                       in (case ctx of
                             DoneAt t \<Rightarrow>
                               if t < wake then Some (Returns (res, Some Canceled), tr2\<lparr>clock := max (clock tr1) t\<rparr>)
                               else doRetryNotify_loop fuel conv rand ctx operation b' (tr2\<lparr>clock := wake\<rparr>)
                           | Background \<Rightarrow>
                               doRetryNotify_loop fuel conv rand ctx operation b' (tr2\<lparr>clock := wake\<rparr>))))))"

text \<open>
  \<^verbatim>\<open>doRetryNotify\<close> up to the loop: \<^verbatim>\<open>ctx := getContext(b)\<close>, \<^verbatim>\<open>b.Reset()\<close>.
\<close>

definition doRetryNotify ::
  "nat \<Rightarrow> (real \<Rightarrow> 64 word) \<Rightarrow> (nat \<Rightarrow> real) \<Rightarrow> (nat \<Rightarrow> ('t \<times> error option) invocation \<times> nat)
     \<Rightarrow> BackOff \<Rightarrow> trace \<Rightarrow> (('t \<times> error option) invocation \<times> trace) option" where
  "doRetryNotify fuel conv rand operation b tr =
     (let ctx = getContext b;
          b0 = Reset (clock tr) b
      in doRetryNotify_loop fuel conv rand ctx operation b0 tr)"

text \<open>
  \<^verbatim>\<open>backoff.RetryWithData(o, b)\<close> is \<^verbatim>\<open>doRetryNotify(o, b, nil, nil)\<close>, and
  \<^verbatim>\<open>backoff.Retry(o, b)\<close> runs it on \<^verbatim>\<open>o.withEmptyData()\<close> and drops the data.
  \<open>now\<close> is the clock's reading when the call starts.
\<close>

definition backoff_RetryWithData ::
  "nat \<Rightarrow> (real \<Rightarrow> 64 word) \<Rightarrow> int \<Rightarrow> (nat \<Rightarrow> real) \<Rightarrow> (nat \<Rightarrow> ('t \<times> error option) invocation \<times> nat)
     \<Rightarrow> BackOff \<Rightarrow> (('t \<times> error option) invocation \<times> trace) option" where
  "backoff_RetryWithData fuel conv now rand o_data b =
     doRetryNotify fuel conv rand o_data b \<lparr>calls = 0, sleeps = [], clock = now\<rparr>"

definition withEmptyData ::
  "(nat \<Rightarrow> error option invocation \<times> nat) \<Rightarrow> (nat \<Rightarrow> (unit \<times> error option) invocation \<times> nat)" where
  "withEmptyData operation =
     (\<lambda>i. case operation i of (r, dur) \<Rightarrow> (map_invocation (\<lambda>err. ((), err)) r, dur))"

definition backoff_Retry ::
  "nat \<Rightarrow> (real \<Rightarrow> 64 word) \<Rightarrow> int \<Rightarrow> (nat \<Rightarrow> real) \<Rightarrow> (nat \<Rightarrow> error option invocation \<times> nat)
     \<Rightarrow> BackOff \<Rightarrow> (error option invocation \<times> trace) option" where
  "backoff_Retry fuel conv now rand operation b =
     map_option (\<lambda>(r, tr). (map_invocation snd r, tr))
       (doRetryNotify fuel conv rand (withEmptyData operation) b \<lparr>calls = 0, sleeps = [], clock = now\<rparr>)"

section \<open>\<^verbatim>\<open>Retry\<close> and \<^verbatim>\<open>RetryWithData\<close> of \<^verbatim>\<open>core/connection.go\<close>\<close>

text \<open>
  Lines 67 to 78 and 100 to 111, the same in both functions: the exponential backoff
  with randomization factor 0, the multiplier \<open>factor\<close> and the initial interval of
  \<open>minDelay\<close> milliseconds, under \<^verbatim>\<open>WithMaxRetries\<close> when \<open>maxTries > 0\<close>. The
  argument \<^verbatim>\<open>factor\<close> is a \<^verbatim>\<open>float64\<close>. It is given here by a real number, and
  \<open>float64 factor\<close> is the \<^verbatim>\<open>float64\<close> that holds it: the number itself when
  \<^verbatim>\<open>float64\<close> holds it exactly, as it does 2 and 1.5, and otherwise the nearest, which
  is what Go makes of a constant such as 0.7.
\<close>

definition maxRetriesBackoff :: "int \<Rightarrow> 64 word \<Rightarrow> real \<Rightarrow> 64 word \<Rightarrow> BackOff" where
  "maxRetriesBackoff now minDelay factor maxTries =
     (let randomOption = WithRandomizationFactor 0;
          initialRetryOption = WithInitialInterval (Milliseconds minDelay);
          multiplierOption = WithMultiplier (float64 factor);
          expBackoff = NewExponentialBackOff now [randomOption, multiplierOption, initialRetryOption]
      in if maxTries > 0 then WithMaxRetries (Exponential expBackoff) (unat maxTries)
         else Exponential expBackoff)"

text \<open>
  Lines 60 to 62 and 94 to 96:
  \<^verbatim>\<open>if perm, ok := err.(PermanentError); err != nil && ok { err = backoff.Permanent(perm.Inner) }\<close>
\<close>

definition classify :: "error option \<Rightarrow> error option" where
  "classify err = (case err of Some (PermanentError Inner) \<Rightarrow> Permanent Inner | _ \<Rightarrow> err)"

text \<open>
  \<^verbatim>\<open>Retry\<close>, lines 89 to 114. The closure \<open>f\<close> calls \<open>functionToRetry\<close> and classifies
  its error; there is no \<^verbatim>\<open>recover\<close>, so a panic of \<open>functionToRetry\<close> is a panic of
  \<open>f\<close>. The counter \<open>i\<close> of the source is written and never read; \<open>calls\<close> of the trace
  counts the invocations instead.
\<close>

definition Retry_f ::
  "(nat \<Rightarrow> error option invocation \<times> nat) \<Rightarrow> (nat \<Rightarrow> error option invocation \<times> nat)" where
  "Retry_f functionToRetry =
     (\<lambda>i. case functionToRetry i of
            (Returns err, dur) \<Rightarrow> (Returns (classify err), dur)
          | (Panics r, dur) \<Rightarrow> (Panics r, dur))"

definition Retry ::
  "nat \<Rightarrow> (real \<Rightarrow> 64 word) \<Rightarrow> int \<Rightarrow> (nat \<Rightarrow> real) \<Rightarrow> (nat \<Rightarrow> error option invocation \<times> nat)
     \<Rightarrow> 64 word \<Rightarrow> real \<Rightarrow> 64 word \<Rightarrow> (error option invocation \<times> trace) option" where
  "Retry fuel conv now rand functionToRetry minDelay factor maxTries =
     backoff_Retry fuel conv now rand (Retry_f functionToRetry)
       (maxRetriesBackoff now minDelay factor maxTries)"

text \<open>
  \<^verbatim>\<open>RetryWithData\<close>, lines 41 to 81. Here the closure recovers from a panic of
  \<open>functionToRetry\<close>: \<open>val\<close> keeps its zero value \<^verbatim>\<open>nil\<close> and \<open>err\<close> becomes a
  \<^verbatim>\<open>TransientError\<close> around the panic value when that is an error, and around
  \<^verbatim>\<open>fmt.Errorf("panicked: %v", panic_err)\<close> otherwise, where \<^verbatim>\<open>panic_err\<close> is the nil
  result of the failed type assertion. A \<^verbatim>\<open>*T\<close> is a \<open>'t option\<close>.
\<close>

definition RetryWithData_f ::
  "(nat \<Rightarrow> ('t option \<times> error option) invocation \<times> nat)
     \<Rightarrow> (nat \<Rightarrow> ('t option \<times> error option) invocation \<times> nat)" where
  "RetryWithData_f functionToRetry =
     (\<lambda>i. case functionToRetry i of
            (Returns (val, err), dur) \<Rightarrow> (Returns (val, classify err), dur)
          | (Panics r, dur) \<Rightarrow>
              (case r of
                 PanicError panic_err \<Rightarrow>
                   (Returns (None, Some (TransientError (Some panic_err))), dur)
               | PanicOther v \<Rightarrow>
                   (Returns (None, Some (TransientError (Some (ErrorString ''panicked: <nil>'')))), dur)))"

definition RetryWithData ::
  "nat \<Rightarrow> (real \<Rightarrow> 64 word) \<Rightarrow> int \<Rightarrow> (nat \<Rightarrow> real) \<Rightarrow> (nat \<Rightarrow> ('t option \<times> error option) invocation \<times> nat)
     \<Rightarrow> 64 word \<Rightarrow> real \<Rightarrow> 64 word \<Rightarrow> (('t option \<times> error option) invocation \<times> trace) option" where
  "RetryWithData fuel conv now rand functionToRetry minDelay factor maxTries =
     backoff_RetryWithData fuel conv now rand (RetryWithData_f functionToRetry)
       (maxRetriesBackoff now minDelay factor maxTries)"

section \<open>Notions for the proofs\<close>

text \<open>
  The exponential backoff that both functions build, the interval it holds after \<open>j\<close>
  calls of \<^verbatim>\<open>incrementCurrentInterval\<close>, and the \<^verbatim>\<open>BackOff\<close> of a run with \<open>maxTries = n\<close>
  after \<open>t\<close> calls of \<^verbatim>\<open>NextBackOff\<close>.
\<close>

definition expBackoff :: "int \<Rightarrow> 64 word \<Rightarrow> real \<Rightarrow> ExponentialBackOff" where
  "expBackoff now minDelay factor =
     NewExponentialBackOff now
       [WithRandomizationFactor 0, WithMultiplier (float64 factor),
        WithInitialInterval (Milliseconds minDelay)]"

definition interval :: "(real \<Rightarrow> 64 word) \<Rightarrow> ExponentialBackOff \<Rightarrow> nat \<Rightarrow> int" where
  "interval conv eb j = currentInterval ((incrementCurrentInterval conv ^^ j) eb)"

definition tries :: "nat \<Rightarrow> nat \<Rightarrow> ExponentialBackOff \<Rightarrow> BackOff" where
  "tries n t eb = (if n = 0 then Exponential eb else BackOffTries (Exponential eb) n t)"

text \<open>
  What the loop returns as error when the closure's last invocation returned \<open>e\<close>: the
  \<^verbatim>\<open>Err\<close> of the \<^verbatim>\<open>*backoff.PermanentError\<close> that \<^verbatim>\<open>errors.As\<close> finds, else \<open>e\<close> itself.
\<close>

definition surfaced :: "error option \<Rightarrow> error option" where
  "surfaced e =
     (case e of
        None \<Rightarrow> None
      | Some x \<Rightarrow> (case errors_As_Permanent x of Some p \<Rightarrow> Some p | None \<Rightarrow> Some x))"

text \<open>
  The error that reaches the caller of \<^verbatim>\<open>Retry\<close> or \<^verbatim>\<open>RetryWithData\<close> when the last
  invocation of the operation returned \<open>e\<close>, in the words of the amended claim C6:
  \<^verbatim>\<open>nil\<close> for \<^verbatim>\<open>nil\<close>; the \<^verbatim>\<open>Inner\<close> error for a \<^verbatim>\<open>PermanentError\<close>; for any other
  error the \<^verbatim>\<open>Err\<close> of a \<^verbatim>\<open>*backoff.PermanentError\<close> it carries, and otherwise the error
  as the operation returned it, a \<^verbatim>\<open>TransientError\<close> wrapper included.
\<close>

definition error_to_caller :: "error option \<Rightarrow> error option" where
  "error_to_caller e =
     (case e of
        None \<Rightarrow> None
      | Some (PermanentError Inner) \<Rightarrow> Inner
      | Some x \<Rightarrow> (case errors_As_Permanent x of Some p \<Rightarrow> Some p | None \<Rightarrow> Some x))"


text \<open>
  The delays in the words of the amended claim C4, in nanoseconds, for a policy with
  \<open>minDelay = d\<close> and \<open>factor = f\<close>. The first delay (number 0) is \<open>d\<close> milliseconds,
  as the \<^verbatim>\<open>int64\<close> product gives them. Each further delay is 60 seconds once the delay
  before it has reached \<open>60 s / f\<close>, and otherwise the delay before it times \<open>f\<close>, cut
  to whole nanoseconds; comparison, quotient and product are those of \<^verbatim>\<open>float64\<close>.
\<close>

primrec delay :: "(real \<Rightarrow> 64 word) \<Rightarrow> 64 word \<Rightarrow> real \<Rightarrow> nat \<Rightarrow> int" where
  "delay conv d f 0 = Milliseconds d"
| "delay conv d f (Suc i) =
     (if float64 f \<noteq> 0
         \<and> float64 (of_int (delay conv d f i)) \<ge> float64 (60000000000 / float64 f)
      then 60000000000
      else Duration_of_float conv (float64 (float64 (of_int (delay conv d f i)) * float64 f)))"

text \<open>
  For a whole-number factor \<open>m\<close> the amended claim C4 gives the delay number \<open>i\<close> in
  closed form: \<open>d * m ^ i\<close> milliseconds, capped at 60 seconds from the second delay on.
\<close>

definition amended_delay :: "64 word \<Rightarrow> nat \<Rightarrow> nat \<Rightarrow> int" where
  "amended_delay d m i =
     (if i = 0 then 1000000 * uint d
      else min (1000000 * uint d * int m ^ i) (60 * 1000000000))"

text \<open>
  The proviso of the amended claim C4: the elapsed-time limit does not end the run at
  the failure number \<open>j\<close> (from 0). \<open>delays i\<close> is the delay number \<open>i\<close> and
  \<open>durations i\<close> the time that the invocation number \<open>i\<close> takes. When the invocation
  number \<open>j\<close> has failed, the time elapsed since the call began is the durations of the
  invocations 0 to \<open>j\<close> and the sleeps between them (a delay that is not positive is no
  sleep). The run goes on when this time plus the delay due next, in the \<^verbatim>\<open>int64\<close>
  arithmetic of the library, is at most the 15 minutes of \<^verbatim>\<open>DefaultMaxElapsedTime\<close>, and
  that delay is not the \<open>-1\<close> that stands for \<^verbatim>\<open>Stop\<close>.
\<close>

definition within_time_limit :: "(nat \<Rightarrow> int) \<Rightarrow> (nat \<Rightarrow> nat) \<Rightarrow> nat \<Rightarrow> bool" where
  "within_time_limit delays durations j \<longleftrightarrow>
     delays j \<noteq> Stop
     \<and> int64 (Time_Sub ((\<Sum>i\<le>j. int (durations i)) + (\<Sum>i<j. max 0 (delays i))) 0 + delays j)
         \<le> DefaultMaxElapsedTime"

section \<open>Properties of the machine numbers\<close>

text \<open>
  What the proofs need of the rounding: \<open>float64 x\<close> lies within half a quantum of
  \<open>x\<close>, a number on the grid of \<open>x\<close> is not crossed, and a number on the grid is
  its own rounding. Whole numbers up to \<open>2 ^ 53\<close> are on their grid.
\<close>

lemma round_half_even_ge_floor: "\<lfloor>y\<rfloor> \<le> round_half_even y"
  by (simp add: round_half_even_def Let_def)

lemma round_half_even_le_ceiling: "round_half_even y \<le> \<lceil>y\<rceil>"
  unfolding round_half_even_def Let_def
  by (auto simp: ceiling_altdef)

lemma round_half_even_of_int [simp]: "round_half_even (of_int n) = n"
  by (simp add: round_half_even_def)

lemma round_half_even_lower: "y - 1 / 2 \<le> of_int (round_half_even y)"
  unfolding round_half_even_def Let_def
  by (auto; linarith)

lemma round_half_even_upper: "of_int (round_half_even y) \<le> y + 1 / 2"
  unfolding round_half_even_def Let_def
  by (auto; linarith)

lemma float64_exponent_le:
  assumes "x \<noteq> 0"
  shows "2 powi float64_exponent x \<le> \<bar>x\<bar>"
proof (cases "1 \<le> \<bar>x\<bar>")
  case True
  let ?n = "\<lfloor>\<bar>x\<bar>\<rfloor>"
  have n: "0 < ?n" using True by linarith
  then have b: "1 \<le> bitlen ?n" by (simp add: bitlen_alt_def)
  have "(2 :: int) ^ nat (bitlen ?n - 1) \<le> ?n" using bitlen_bounds [OF n] by simp
  then have "real_of_int (2 ^ nat (bitlen ?n - 1)) \<le> real_of_int ?n" by (simp only: of_int_le_iff)
  also have "\<dots> \<le> \<bar>x\<bar>" by simp
  finally show ?thesis
    using True b by (simp add: float64_exponent_def power_int_def)
next
  case False
  let ?N = "\<lceil>1 / \<bar>x\<bar>\<rceil>"
  have x: "0 < \<bar>x\<bar>" "\<bar>x\<bar> < 1" using False assms by simp_all
  then have "1 < 1 / \<bar>x\<bar>" by simp
  then have N: "0 < ?N - 1" by linarith
  have "?N - 1 < 2 ^ nat (bitlen (?N - 1))" using bitlen_bounds [OF N] by simp
  then have "?N \<le> 2 ^ nat (bitlen (?N - 1))" by simp
  then have "real_of_int ?N \<le> real_of_int (2 ^ nat (bitlen (?N - 1)))" by (simp only: of_int_le_iff)
  moreover have "1 / \<bar>x\<bar> \<le> real_of_int ?N" by (rule le_of_int_ceiling)
  ultimately have "1 / \<bar>x\<bar> \<le> real_of_int (2 ^ nat (bitlen (?N - 1)))" by (rule order_trans [rotated])
  then have "1 / \<bar>x\<bar> \<le> 2 ^ nat (bitlen (?N - 1))" by simp
  then have "1 / 2 ^ nat (bitlen (?N - 1)) \<le> \<bar>x\<bar>"
    using x(1) by (simp add: field_simps)
  moreover have "0 < bitlen (?N - 1)"
    using N bitlen_nonneg [of "?N - 1"] bitlen_eq_zero_iff [of "?N - 1"] by linarith
  ultimately show ?thesis
    using False by (simp add: float64_exponent_def power_int_def inverse_eq_divide power_one_over)
qed


lemma float64_quantum_le:
  assumes "x \<noteq> 0" and "\<bar>x\<bar> < 2 powi (p + 53)" and "- 1074 \<le> p"
  shows "float64_quantum x \<le> p"
proof -
  have "(2 :: real) powi float64_exponent x < 2 powi (p + 53)"
    using float64_exponent_le [OF assms(1)] assms(2) by (rule le_less_trans)
  then have "float64_exponent x < p + 53"
    using power_int_increasing [of "p + 53" "float64_exponent x" "2 :: real"]
    by (cases "float64_exponent x < p + 53") simp_all
  with assms(3) show ?thesis by (simp add: float64_quantum_def)
qed

lemma grid_scale:
  assumes "q \<le> p"
  shows "real_of_int a * 2 powi p / 2 powi q = real_of_int (a * 2 ^ nat (p - q))"
proof -
  have "(2 :: real) powi (p - q) = 2 powi p / 2 powi q"
    by (rule power_int_diff) simp
  moreover have "(2 :: real) powi (p - q) = 2 ^ nat (p - q)"
    using assms by (simp add: power_int_nonneg_exp)
  ultimately show ?thesis by simp
qed

lemma float64_exact:
  assumes "x = real_of_int a * 2 powi p" and "float64_quantum x \<le> p"
  shows "float64 x = x"
proof -
  let ?q = "float64_quantum x"
  let ?A = "a * 2 ^ nat (p - ?q)"
  have sc: "x / 2 powi ?q = real_of_int ?A"
    using grid_scale [OF assms(2), of a] assms(1) by simp
  have "round_half_even (x / 2 powi ?q) = ?A"
    unfolding sc by (rule round_half_even_of_int)
  then have "float64 x = real_of_int ?A * 2 powi ?q"
    by (simp only: float64_def Let_def)
  also have "\<dots> = x / 2 powi ?q * 2 powi ?q"
    by (simp only: sc)
  also have "\<dots> = x" by simp
  finally show ?thesis .
qed

lemma float64_ge_grid:
  assumes "r = real_of_int a * 2 powi p" and "float64_quantum x \<le> p" and "r \<le> x"
  shows "r \<le> float64 x"
proof -
  let ?q = "float64_quantum x"
  let ?A = "a * 2 ^ nat (p - ?q)"
  have pos: "(0 :: real) < 2 powi ?q" by simp
  have rA: "r / 2 powi ?q = real_of_int ?A"
    using grid_scale [OF assms(2), of a] assms(1) by simp
  have "r / 2 powi ?q \<le> x / 2 powi ?q"
    using assms(3) pos by (simp add: divide_right_mono)
  then have "real_of_int ?A \<le> x / 2 powi ?q" unfolding rA .
  then have "?A \<le> \<lfloor>x / 2 powi ?q\<rfloor>" by (simp add: le_floor_iff)
  also have "\<dots> \<le> round_half_even (x / 2 powi ?q)" by (rule round_half_even_ge_floor)
  finally have "real_of_int ?A \<le> real_of_int (round_half_even (x / 2 powi ?q))"
    by (simp only: of_int_le_iff)
  then have "real_of_int ?A * 2 powi ?q \<le> real_of_int (round_half_even (x / 2 powi ?q)) * 2 powi ?q"
    using pos by (simp only: mult_le_cancel_right_pos)
  moreover have "real_of_int ?A * 2 powi ?q = r"
    unfolding rA [symmetric] by simp
  ultimately have "r \<le> real_of_int (round_half_even (x / 2 powi ?q)) * 2 powi ?q"
    by (simp only:)
  then show ?thesis by (simp only: float64_def Let_def)
qed

lemma float64_le_grid:
  assumes "r = real_of_int a * 2 powi p" and "float64_quantum x \<le> p" and "x \<le> r"
  shows "float64 x \<le> r"
proof -
  let ?q = "float64_quantum x"
  let ?A = "a * 2 ^ nat (p - ?q)"
  have pos: "(0 :: real) < 2 powi ?q" by simp
  have rA: "r / 2 powi ?q = real_of_int ?A"
    using grid_scale [OF assms(2), of a] assms(1) by simp
  have "x / 2 powi ?q \<le> r / 2 powi ?q"
    using assms(3) pos by (simp add: divide_right_mono)
  then have "x / 2 powi ?q \<le> real_of_int ?A" unfolding rA .
  then have "\<lceil>x / 2 powi ?q\<rceil> \<le> ?A" by (simp add: ceiling_le_iff)
  with round_half_even_le_ceiling [of "x / 2 powi ?q"]
  have "round_half_even (x / 2 powi ?q) \<le> ?A" by (rule order_trans)
  then have "real_of_int (round_half_even (x / 2 powi ?q)) \<le> real_of_int ?A"
    by (simp only: of_int_le_iff)
  then have "real_of_int (round_half_even (x / 2 powi ?q)) * 2 powi ?q \<le> real_of_int ?A * 2 powi ?q"
    using pos by (simp only: mult_le_cancel_right_pos)
  moreover have "real_of_int ?A * 2 powi ?q = r"
    unfolding rA [symmetric] by simp
  ultimately have "real_of_int (round_half_even (x / 2 powi ?q)) * 2 powi ?q \<le> r"
    by (simp only:)
  then show ?thesis by (simp only: float64_def Let_def)
qed

lemma round_half_even_0 [simp]: "round_half_even 0 = 0"
  by (simp add: round_half_even_def)

lemma float64_0 [simp]: "float64 0 = 0"
  by (simp add: float64_def)

lemma float64_of_int:
  assumes "\<bar>n\<bar> \<le> 2 ^ 53"
  shows "float64 (real_of_int n) = real_of_int n"
proof (cases "n = 0")
  case True
  then show ?thesis by simp
next
  case False
  show ?thesis
  proof (cases "\<bar>n\<bar> = 2 ^ 53")
    case True
    then have n: "n = 2 ^ 53 \<or> n = - (2 ^ 53)" by linarith
    then have eq: "real_of_int n = real_of_int (n div 2) * 2 powi 1" by auto
    have "\<bar>real_of_int n\<bar> < 2 powi (1 + 53)" using n by auto
    then have "float64_quantum (real_of_int n) \<le> 1"
      using False by (intro float64_quantum_le) simp_all
    with eq show ?thesis by (rule float64_exact)
  next
    case lt: False
    with assms have "\<bar>n\<bar> < 2 ^ 53" by simp
    then have "real_of_int \<bar>n\<bar> < real_of_int (2 ^ 53)" by (simp only: of_int_less_iff)
    then have "\<bar>real_of_int n\<bar> < 2 powi (0 + 53)" by simp
    then have "float64_quantum (real_of_int n) \<le> 0"
      using False by (intro float64_quantum_le) simp_all
    moreover have "real_of_int n = real_of_int n * 2 powi 0" by simp
    ultimately show ?thesis by (rule float64_exact [rotated])
  qed
qed

lemma float64_lower: "x - 2 powi float64_quantum x / 2 \<le> float64 x"
proof -
  let ?q = "float64_quantum x"
  have pos: "(0 :: real) < 2 powi ?q" by simp
  have "x / 2 powi ?q - 1 / 2 \<le> real_of_int (round_half_even (x / 2 powi ?q))"
    by (rule round_half_even_lower)
  then have "(x / 2 powi ?q - 1 / 2) * 2 powi ?q
             \<le> real_of_int (round_half_even (x / 2 powi ?q)) * 2 powi ?q"
    using pos by (simp only: mult_le_cancel_right_pos)
  moreover have "(x / 2 powi ?q - 1 / 2) * 2 powi ?q = x - 2 powi ?q / 2"
    by (simp add: algebra_simps)
  ultimately have "x - 2 powi ?q / 2 \<le> real_of_int (round_half_even (x / 2 powi ?q)) * 2 powi ?q"
    by (simp only:)
  then show ?thesis by (simp only: float64_def Let_def)
qed

lemma float64_numeral [simp]:
  "(numeral k :: int) \<le> 2 ^ 53 \<Longrightarrow> float64 (numeral k) = numeral k"
  using float64_of_int [of "numeral k"] by simp

lemma float64_1 [simp]: "float64 1 = 1"
  using float64_of_int [of 1] by simp

lemma int64_id: "- (2 ^ 63) \<le> n \<Longrightarrow> n < 2 ^ 63 \<Longrightarrow> int64 n = n"
  by (simp add: int64_def)

lemma Time_Sub_id: "- (2 ^ 63) \<le> t - u \<Longrightarrow> t - u < 2 ^ 63 \<Longrightarrow> Time_Sub t u = t - u"
  by (simp add: Time_Sub_def)

lemma Time_Sub_shift [simp]: "Time_Sub (t + d) (u + d) = Time_Sub t u"
  by (simp add: Time_Sub_def)

lemma Time_Sub_since [simp]: "Time_Sub (now + x) now = Time_Sub x 0"
  by (simp add: Time_Sub_def)

lemma Duration_of_float_of_int:
  "- (2 ^ 63) \<le> z \<Longrightarrow> z < 2 ^ 63 \<Longrightarrow> Duration_of_float conv (of_int z) = z"
  by (simp add: Duration_of_float_def)

lemma Duration_of_float_0 [simp]: "Duration_of_float conv 0 = 0"
  by (simp add: Duration_of_float_def)

lemma pow2_1075_small: "(2 :: real) powi (- 1074) / 2 < 1 / 2 ^ 53"
proof -
  have "(2 :: real) powi (- 1074) / 2 = 2 powi (- 1074) * 2 powi (- 1)"
    by (simp add: power_int_minus_divide)
  also have "\<dots> = 2 powi (- 1075)"
    by (subst power_int_add [symmetric]) simp_all
  also have "\<dots> < 2 powi (- 53)"
    by (rule power_int_strict_increasing) simp_all
  also have "\<dots> = 1 / 2 ^ 53"
    by (simp add: power_int_minus_divide)
  finally show ?thesis .
qed

lemma quantum_half_small:
  assumes x: "0 < x" and m: "1 \<le> m" and m53: "m \<le> 2 ^ 53" and xm: "x * m < 2 ^ 53"
  shows "2 powi float64_quantum x / 2 < 1 / (m :: real)"
proof -
  let ?e = "float64_exponent x"
  have mpos: "0 < m" using m by simp
  have "(2 :: real) powi (?e - 52) = 2 powi ?e / 2 powi 52"
    by (rule power_int_diff) simp
  also have "\<dots> \<le> x / 2 powi 52"
    using float64_exponent_le [of x] x by (intro divide_right_mono) simp_all
  finally have a: "(2 :: real) powi (?e - 52) \<le> x / 2 powi 52" .
  have "x * m / 2 powi 53 < 1"
    using xm by simp
  then have "x / 2 powi 53 < 1 / m"
    using mpos by (simp add: field_simps)
  moreover have "x / 2 powi 52 / 2 = x / 2 powi 53"
    by simp
  ultimately have b: "x / 2 powi 52 / 2 < 1 / m" by (simp only:)
  from a have "(2 :: real) powi (?e - 52) / 2 \<le> x / 2 powi 52 / 2"
    by (rule divide_right_mono) simp
  with b have a': "(2 :: real) powi (?e - 52) / 2 < 1 / m"
    by (rule le_less_trans [rotated])
  have "1 / 2 ^ 53 \<le> 1 / m"
    using m53 mpos by (intro divide_left_mono) simp_all
  with pow2_1075_small have b': "(2 :: real) powi (- 1074) / 2 < 1 / m"
    by (rule less_le_trans)
  show ?thesis
    unfolding float64_quantum_def max_def using a' b' by (simp only: split: if_splits) auto
qed

lemma whole_step:
  fixes c :: int and m :: nat
  assumes c0: "0 \<le> c" and c63: "c < 2 ^ 63" and m53: "real m \<le> 2 ^ 53"
  shows "(if float64 (real m) \<noteq> 0
             \<and> float64 (of_int c) \<ge> float64 (60000000000 / float64 (real m))
          then 60000000000
          else Duration_of_float conv (float64 (float64 (of_int c) * float64 (real m))))
         = min (c * int m) 60000000000"
proof -
  have "real m \<le> real (2 ^ 53)" using m53 by simp
  then have "m \<le> 2 ^ 53" by (simp only: of_nat_le_iff)
  then have "int m \<le> int (2 ^ 53)" by (simp only: of_nat_le_iff)
  then have "\<bar>int m\<bar> \<le> 2 ^ 53" by simp
  then have "float64 (real_of_int (int m)) = real_of_int (int m)" by (rule float64_of_int)
  then have fm: "float64 (real m) = real m" by simp
  show ?thesis
  proof (cases "m = 0")
    case True
    then show ?thesis by simp
  next
    case False
    then have m1: "1 \<le> real m" and mpos: "0 < real m" by simp_all
    let ?x = "60000000000 / real m"
    have x0: "0 < ?x" using mpos by simp
    have x_le: "?x \<le> 60000000000" using m1 by (simp add: field_simps)
    have qx: "float64_quantum ?x \<le> 0"
      using x0 x_le by (intro float64_quantum_le) simp_all
    show ?thesis
    proof (cases "60000000000 \<le> c * int m")
      case True
      then have "real_of_int 60000000000 \<le> real_of_int (c * int m)" by (simp only: of_int_le_iff)
      then have xc: "?x \<le> real_of_int c" using mpos by (simp add: field_simps)
      let ?r = "min c 60000000000"
      have "?x \<le> real_of_int ?r" using xc x_le by (simp add: min_def)
      moreover have "real_of_int ?r = real_of_int ?r * 2 powi 0" by simp
      ultimately have up: "float64 ?x \<le> real_of_int ?r"
        using qx by (intro float64_le_grid [where a = ?r and p = 0]) simp_all
      have low: "real_of_int ?r \<le> float64 (real_of_int c)"
      proof (cases "c \<le> 2 ^ 53")
        case True
        with c0 have "float64 (real_of_int c) = real_of_int c" by (intro float64_of_int) simp
        then show ?thesis by simp
      next
        case False
        then have r: "?r = 60000000000" by simp
        have c_ne: "real_of_int c \<noteq> 0" using False by auto
        have "real_of_int c < real_of_int (2 ^ 63)" using c63 by (simp only: of_int_less_iff)
        then have "\<bar>real_of_int c\<bar> < 2 powi (11 + 53)" using c0 by simp
        then have q: "float64_quantum (real_of_int c) \<le> 11"
          using c_ne by (intro float64_quantum_le) simp_all
        have g: "(60000000000 :: real) = real_of_int 29296875 * 2 powi 11" by simp
        have "(60000000000 :: int) \<le> c" using False by simp
        then have "real_of_int 60000000000 \<le> real_of_int c" by (simp only: of_int_le_iff)
        then have "(60000000000 :: real) \<le> real_of_int c" by simp
        with g q have "(60000000000 :: real) \<le> float64 (real_of_int c)"
          by (intro float64_ge_grid [where a = 29296875 and p = 11])
        then show ?thesis unfolding r by simp
      qed
      from up low have "float64 ?x \<le> float64 (real_of_int c)" by (rule order_trans)
      with True False show ?thesis by (simp add: fm)
    next
      case B: False
      then have cm: "c * int m + 1 \<le> 60000000000" by simp
      have "c * 1 \<le> c * int m" using c0 False by (intro mult_left_mono) simp_all
      with B have c_small: "c < 60000000000" by simp
      with c0 have fc: "float64 (real_of_int c) = real_of_int c" by (intro float64_of_int) simp
      have "real_of_int (c * int m + 1) \<le> real_of_int 60000000000"
        using cm by (simp only: of_int_le_iff)
      then have "real_of_int c * real m + 1 \<le> 60000000000" by simp
      then have c_le: "real_of_int c + 1 / real m \<le> ?x"
        using mpos by (simp add: field_simps)
      have "?x * real m < 2 ^ 53" using mpos by simp
      then have "2 powi float64_quantum ?x / 2 < 1 / real m"
        using x0 m1 m53 by (intro quantum_half_small)
      with float64_lower [of ?x] c_le have lt: "real_of_int c < float64 ?x" by linarith
      have prod: "real_of_int c * real m = real_of_int (c * int m)" by simp
      have "0 \<le> c * int m" using c0 by simp
      with B have fp: "float64 (real_of_int (c * int m)) = real_of_int (c * int m)"
        by (intro float64_of_int) simp
      have dur: "Duration_of_float conv (real_of_int (c * int m)) = c * int m"
        using \<open>0 \<le> c * int m\<close> B by (intro Duration_of_float_of_int) simp_all
      show ?thesis
        using lt B by (simp add: fm fc prod fp dur del: of_int_mult of_int_of_nat_eq)
    qed
  qed
qed

lemma float64_upper: "float64 x \<le> x + 2 powi float64_quantum x / 2"
proof -
  let ?q = "float64_quantum x"
  have pos: "(0 :: real) < 2 powi ?q" by simp
  have "real_of_int (round_half_even (x / 2 powi ?q)) \<le> x / 2 powi ?q + 1 / 2"
    by (rule round_half_even_upper)
  then have "real_of_int (round_half_even (x / 2 powi ?q)) * 2 powi ?q
             \<le> (x / 2 powi ?q + 1 / 2) * 2 powi ?q"
    using pos by (simp only: mult_le_cancel_right_pos)
  moreover have "(x / 2 powi ?q + 1 / 2) * 2 powi ?q = x + 2 powi ?q / 2"
    by (simp add: algebra_simps)
  ultimately have "real_of_int (round_half_even (x / 2 powi ?q)) * 2 powi ?q \<le> x + 2 powi ?q / 2"
    by (simp only:)
  then show ?thesis by (simp only: float64_def Let_def)
qed

lemma float64_nonneg: "0 \<le> x \<Longrightarrow> 0 \<le> float64 x"
  using float64_ge_grid [of 0 0 "float64_quantum x" x] by simp

lemma float64_nonpos: "x \<le> 0 \<Longrightarrow> float64 x \<le> 0"
  using float64_le_grid [of 0 0 "float64_quantum x" x] by simp

lemma quantum_le:
  assumes "x \<noteq> 0"
  shows "2 powi float64_quantum x \<le> max (\<bar>x\<bar> / 2 powi 52) (2 powi (- 1074))"
proof -
  have "(2 :: real) powi (float64_exponent x - 52) = 2 powi float64_exponent x / 2 powi 52"
    by (rule power_int_diff) simp
  also have "\<dots> \<le> \<bar>x\<bar> / 2 powi 52"
    using float64_exponent_le [OF assms] by (intro divide_right_mono) simp_all
  finally have "(2 :: real) powi (float64_exponent x - 52) \<le> \<bar>x\<bar> / 2 powi 52" .
  then show ?thesis
    unfolding float64_quantum_def max_def by (simp only: split: if_splits) auto
qed

lemma float64_half_le:
  assumes "1 \<le> x"
  shows "x / 2 \<le> float64 x"
proof -
  have x0: "x \<noteq> 0" using assms by simp
  have "x / 2 powi 52 \<le> x / 1"
    using assms by (intro divide_left_mono) simp_all
  moreover have "(2 :: real) powi (- 1074) \<le> 1"
    by (simp add: power_int_minus_divide)
  ultimately have "max (\<bar>x\<bar> / 2 powi 52) (2 powi (- 1074)) \<le> x"
    using assms by simp
  with quantum_le [OF x0] have "2 powi float64_quantum x \<le> x" by (rule order_trans)
  with float64_lower [of x] show ?thesis by linarith
qed

lemma float64_le_three_halves:
  assumes "1 / 4 \<le> x"
  shows "float64 x \<le> 3 * x / 2"
proof -
  have x0: "x \<noteq> 0" using assms by auto
  have xpos: "0 < x" using assms by linarith
  have "x / 2 powi 52 \<le> x / 1"
    using xpos by (intro divide_left_mono) simp_all
  moreover have "(2 :: real) powi (- 1074) \<le> 2 powi (- 2)"
    by (rule power_int_increasing) simp_all
  then have "(2 :: real) powi (- 1074) \<le> x"
    using assms by (simp add: power_int_minus_divide)
  ultimately have "max (\<bar>x\<bar> / 2 powi 52) (2 powi (- 1074)) \<le> x"
    using xpos by simp
  with quantum_le [OF x0] have "2 powi float64_quantum x \<le> x" by (rule order_trans)
  with float64_upper [of x] show ?thesis by linarith
qed

lemma float64_small:
  assumes "0 \<le> x" and "x < 1 / 4"
  shows "float64 x \<le> 1 / 2"
proof (cases "x = 0")
  case True
  then show ?thesis by simp
next
  case False
  have "x / 2 powi 52 \<le> x / 1"
    using assms(1) by (intro divide_left_mono) simp_all
  moreover have "(2 :: real) powi (- 1074) \<le> 2 powi (- 2)"
    by (rule power_int_increasing) simp_all
  then have "(2 :: real) powi (- 1074) \<le> 1 / 4"
    by (simp add: power_int_minus_divide)
  ultimately have "max (\<bar>x\<bar> / 2 powi 52) (2 powi (- 1074)) \<le> 1 / 4"
    using assms by simp
  with quantum_le [OF False] have "(2 :: real) powi float64_quantum x \<le> 1 / 4" by (rule order_trans)
  with float64_upper [of x] assms(2) show ?thesis by linarith
qed

section \<open>The backoff object of a run\<close>

declare doRetryNotify_loop.simps [simp del]

lemma expBackoff_eq:
  "expBackoff now d f =
     \<lparr>InitialInterval = Milliseconds d, RandomizationFactor = 0, Multiplier = float64 f,
      MaxInterval = DefaultMaxInterval, MaxElapsedTime = DefaultMaxElapsedTime,
      currentInterval = Milliseconds d, startTime = now\<rparr>"
  by (simp add: expBackoff_def NewExponentialBackOff_def ExponentialBackOff_Reset_def
      WithRandomizationFactor_def WithMultiplier_def WithInitialInterval_def)

lemma maxRetriesBackoff_tries:
  "maxRetriesBackoff now d f n = tries (unat n) 0 (expBackoff now d f)"
  by (simp add: maxRetriesBackoff_def tries_def expBackoff_def WithMaxRetries_def Let_def
      word_greater_zero_iff unat_eq_0)

lemma Reset_tries:
  "Reset now (tries n 0 (expBackoff now d f)) = tries n 0 (expBackoff now d f)"
  by (simp add: tries_def expBackoff_eq ExponentialBackOff_Reset_def)

lemma getContext_tries [simp]: "getContext (tries n t eb) = Background"
  by (simp add: tries_def)

lemma tries_pos: "0 < n \<Longrightarrow> tries n t eb = BackOffTries (Exponential eb) n t"
  by (simp add: tries_def)

lemma incr_fields [simp]:
  "RandomizationFactor (incrementCurrentInterval conv b) = RandomizationFactor b"
  "Multiplier (incrementCurrentInterval conv b) = Multiplier b"
  "MaxInterval (incrementCurrentInterval conv b) = MaxInterval b"
  "MaxElapsedTime (incrementCurrentInterval conv b) = MaxElapsedTime b"
  "startTime (incrementCurrentInterval conv b) = startTime b"
  "InitialInterval (incrementCurrentInterval conv b) = InitialInterval b"
  by (simp_all add: incrementCurrentInterval_def)

lemma incr_pow_fields [simp]:
  "RandomizationFactor ((incrementCurrentInterval conv ^^ k) b) = RandomizationFactor b"
  "Multiplier ((incrementCurrentInterval conv ^^ k) b) = Multiplier b"
  "MaxInterval ((incrementCurrentInterval conv ^^ k) b) = MaxInterval b"
  "MaxElapsedTime ((incrementCurrentInterval conv ^^ k) b) = MaxElapsedTime b"
  "startTime ((incrementCurrentInterval conv ^^ k) b) = startTime b"
  by (induction k) simp_all

lemma NextBackOff_exp_no_jitter:
  "RandomizationFactor b = 0 \<Longrightarrow>
   ExponentialBackOff_NextBackOff conv b now random =
     (if MaxElapsedTime b \<noteq> 0
         \<and> int64 (Time_Sub now (startTime b) + currentInterval b) > MaxElapsedTime b
      then Stop else currentInterval b, incrementCurrentInterval conv b)"
  by (simp add: ExponentialBackOff_NextBackOff_def getRandomValueFromInterval_def Let_def)

lemma NextBackOff_tries:
  assumes "RandomizationFactor eb = 0"
  shows "NextBackOff conv (tries n t eb) now random =
     (if n \<noteq> 0 \<and> n \<le> t then (Stop, tries n t eb)
      else (if MaxElapsedTime eb \<noteq> 0
               \<and> int64 (Time_Sub now (startTime eb) + currentInterval eb) > MaxElapsedTime eb
            then Stop else currentInterval eb, tries n (Suc t) (incrementCurrentInterval conv eb)))"
  using assms by (simp add: tries_def NextBackOff_exp_no_jitter)

lemma interval_0 [simp]: "interval conv eb 0 = currentInterval eb"
  by (simp add: interval_def)

lemma interval_Suc: "interval conv eb (Suc j) = interval conv (incrementCurrentInterval conv eb) j"
  by (simp add: interval_def funpow_swap1)

lemma Retry_loop:
  "Retry fuel conv now rand functionToRetry d f n =
     map_option (\<lambda>(r, tr). (map_invocation snd r, tr))
       (doRetryNotify_loop fuel conv rand Background (withEmptyData (Retry_f functionToRetry))
          (tries (unat n) 0 (expBackoff now d f)) \<lparr>calls = 0, sleeps = [], clock = now\<rparr>)"
  by (simp add: Retry_def backoff_Retry_def doRetryNotify_def maxRetriesBackoff_tries Reset_tries)

lemma RetryWithData_loop:
  "RetryWithData fuel conv now rand functionToRetry d f n =
     doRetryNotify_loop fuel conv rand Background (RetryWithData_f functionToRetry)
       (tries (unat n) 0 (expBackoff now d f)) \<lparr>calls = 0, sleeps = [], clock = now\<rparr>"
  by (simp add: RetryWithData_def backoff_RetryWithData_def doRetryNotify_def
      maxRetriesBackoff_tries Reset_tries)

section \<open>Fuel and the number of invocations\<close>

lemma loop_fuel_mono:
  "doRetryNotify_loop fuel conv rand ctx f b tr = Some r \<Longrightarrow>
   doRetryNotify_loop (fuel + extra) conv rand ctx f b tr = Some r"
proof (induction fuel arbitrary: b tr)
  case 0
  then show ?case by (simp add: doRetryNotify_loop.simps)
next
  case (Suc fuel)
  then show ?case
    by (auto simp: doRetryNotify_loop.simps Let_def
        split: prod.splits invocation.splits option.splits if_splits Context.splits)
qed

lemma loop_fuel_unique:
  assumes "doRetryNotify_loop fuel1 conv rand ctx f b tr = Some r1"
      and "doRetryNotify_loop fuel2 conv rand ctx f b tr = Some r2"
  shows "r1 = r2"
proof -
  have "doRetryNotify_loop (fuel1 + fuel2) conv rand ctx f b tr = Some r1"
    using assms(1) by (rule loop_fuel_mono)
  moreover have "doRetryNotify_loop (fuel2 + fuel1) conv rand ctx f b tr = Some r2"
    using assms(2) by (rule loop_fuel_mono)
  ultimately show ?thesis by (simp add: add.commute)
qed

lemma loop_calls_grow:
  "doRetryNotify_loop fuel conv rand ctx f b tr = Some (r, tr') \<Longrightarrow> calls tr < calls tr'"
proof (induction fuel arbitrary: b tr)
  case 0
  then show ?case by (simp add: doRetryNotify_loop.simps)
next
  case (Suc fuel)
  then show ?case
    by (fastforce simp: doRetryNotify_loop.simps Let_def
        split: prod.splits invocation.splits option.splits if_splits Context.splits)
qed

lemma loop_tries_returns:
  assumes "0 < n"
  shows "\<exists>r tr'. doRetryNotify_loop (Suc (n - t)) conv rand ctx f (BackOffTries delegate n t) tr = Some (r, tr')
           \<and> calls tr' \<le> calls tr + Suc (n - t)"
proof (induction "n - t" arbitrary: t delegate tr)
  case 0
  then have "n \<le> t" by simp
  with assms show ?case
    by (auto simp: doRetryNotify_loop.simps Let_def ctx_Err_def
        split: prod.splits invocation.splits option.splits Context.splits)
next
  case (Suc m)
  then have lt: "t < n" and m: "m = n - Suc t" by simp_all
  have fuel: "Suc (n - t) = Suc (Suc (n - Suc t))" using lt by simp
  obtain r dur where op: "f (calls tr) = (r, dur)" by (cases "f (calls tr)")
  obtain nxt delegate' where
    nb: "NextBackOff conv delegate (clock tr + int dur) (rand (calls tr)) = (nxt, delegate')"
    by (cases "NextBackOff conv delegate (clock tr + int dur) (rand (calls tr))")
  have ih: "\<exists>r tr'. doRetryNotify_loop (Suc (n - Suc t)) conv rand ctx f
                      (BackOffTries delegate' n (Suc t)) tr1 = Some (r, tr')
                  \<and> calls tr' \<le> calls tr1 + Suc (n - Suc t)" for tr1
    using Suc.hyps(1) [OF m] by blast
  show ?case
    unfolding fuel
    apply (subst doRetryNotify_loop.simps)
    using op nb lt assms
    apply (simp add: Let_def split: prod.splits invocation.splits option.splits Context.splits)
    apply (intro conjI impI allI)
    using ih apply force+
    done
qed

lemma loop_tries_bound:
  assumes "0 < n"
  shows "(\<exists>r tr'. doRetryNotify_loop (Suc n) conv rand Background f (tries n 0 eb) tr = Some (r, tr')
            \<and> calls tr' \<le> calls tr + Suc n)
       \<and> (\<forall>fuel r tr'. doRetryNotify_loop fuel conv rand Background f (tries n 0 eb) tr = Some (r, tr')
            \<longrightarrow> calls tr' \<le> calls tr + Suc n)"
proof -
  obtain r tr' where
    run: "doRetryNotify_loop (Suc n) conv rand Background f (tries n 0 eb) tr = Some (r, tr')"
    and le: "calls tr' \<le> calls tr + Suc n"
    using loop_tries_returns [OF assms, where t = 0 and conv = conv and rand = rand and ctx = Background
        and f = f and delegate = "Exponential eb" and tr = tr]
    by (auto simp: tries_pos [OF assms])
  have "calls tr2 \<le> calls tr + Suc n"
    if "doRetryNotify_loop fuel conv rand Background f (tries n 0 eb) tr = Some (r2, tr2)"
    for fuel r2 tr2
    using loop_fuel_unique [OF that run] le by simp
  with run le show ?thesis by blast
qed

lemma loop_never_panics:
  assumes "\<And>i. \<exists>x dur. f i = (Returns x, dur)"
  shows "doRetryNotify_loop fuel conv rand ctx f b tr = Some (r, tr') \<Longrightarrow> \<exists>x. r = Returns x"
proof (induction fuel arbitrary: b tr)
  case 0
  then show ?case by (simp add: doRetryNotify_loop.simps)
next
  case (Suc fuel)
  obtain x dur where "f (calls tr) = (Returns x, dur)" using assms by blast
  with Suc show ?case
    by (fastforce simp: doRetryNotify_loop.simps Let_def
        split: prod.splits invocation.splits option.splits if_splits Context.splits)
qed

lemma RetryWithData_recovers:
  "RetryWithData fuel conv now rand functionToRetry minDelay factor maxTries = Some (r, tr)
   \<Longrightarrow> \<exists>val err. r = Returns (val, err)"
  unfolding RetryWithData_loop
  by (drule loop_never_panics [rotated])
     (auto simp: RetryWithData_f_def split: prod.splits invocation.splits panic_value.splits)

section \<open>A run does not depend on the clock's reading or the random source\<close>

lemma incr_startTime:
  "incrementCurrentInterval conv (eb\<lparr>startTime := s\<rparr>) = (incrementCurrentInterval conv eb)\<lparr>startTime := s\<rparr>"
  by (cases eb) (simp add: incrementCurrentInterval_def)

lemma Time_Sub_shift2 [simp]: "Time_Sub (t + d + x) (u + d) = Time_Sub (t + x) u"
  by (simp add: Time_Sub_def)

lemma loop_shift:
  assumes "RandomizationFactor eb = 0"
  shows "doRetryNotify_loop fuel conv rand' Background f (tries n t (eb\<lparr>startTime := startTime eb + delta\<rparr>))
           (tr\<lparr>clock := clock tr + delta\<rparr>)
       = map_option (\<lambda>(r, tr'). (r, tr'\<lparr>clock := clock tr' + delta\<rparr>))
           (doRetryNotify_loop fuel conv rand Background f (tries n t eb) tr)"
  using assms
proof (induction fuel arbitrary: eb t tr)
  case 0
  then show ?case by (simp add: doRetryNotify_loop.simps)
next
  case (Suc fuel)
  have rf: "RandomizationFactor (incrementCurrentInterval conv eb) = 0" using Suc.prems by simp
  note ih = Suc.IH [OF rf, unfolded incr_fields]
  obtain r dur where op: "f (calls tr) = (r, dur)" by (cases "f (calls tr)")
  show ?case
    apply (subst (1 2) doRetryNotify_loop.simps)
    using op Suc.prems
    apply (simp add: Let_def NextBackOff_tries ctx_Err_def ctx_Done_def
          split: prod.splits invocation.splits option.splits)
    apply (intro conjI impI allI)
    using ih [of _ "tr\<lparr>calls := Suc (calls tr), sleeps := sleeps tr @ [currentInterval eb],
                         clock := clock tr + int dur + max 0 (currentInterval eb)\<rparr>"]
    apply (simp_all add: incr_startTime add.commute add.left_commute add.assoc)
    done
qed

lemma expBackoff_shift:
  "expBackoff now' d f
     = (expBackoff now d f)\<lparr>startTime := startTime (expBackoff now d f) + (now' - now)\<rparr>"
  by (simp add: expBackoff_eq)

lemma expBackoff_no_jitter [simp]: "RandomizationFactor (expBackoff now d f) = 0"
  by (simp add: expBackoff_eq)

section \<open>What a run that returns has done\<close>

lemma loop_returns_last:
  "doRetryNotify_loop fuel conv rand Background f b tr = Some (r, tr') \<Longrightarrow>
   r = (case fst (f (calls tr' - 1)) of
          Panics p \<Rightarrow> Panics p
        | Returns (res, e) \<Rightarrow> Returns (res, surfaced e))"
proof (induction fuel arbitrary: b tr)
  case 0
  then show ?case by (simp add: doRetryNotify_loop.simps)
next
  case (Suc fuel)
  from Suc.prems show ?case
    apply (subst (asm) doRetryNotify_loop.simps)
    apply (auto simp: Let_def ctx_Err_def ctx_Done_def surfaced_def
        split: prod.splits invocation.splits option.splits if_splits dest: Suc.IH)
    done
qed

lemma loop_clock:
  "doRetryNotify_loop fuel conv rand Background f b tr = Some (r, tr') \<Longrightarrow>
   clock tr' - (\<Sum>i<calls tr'. int (snd (f i))) - sum_list (map (max 0) (sleeps tr'))
     = clock tr - (\<Sum>i<calls tr. int (snd (f i))) - sum_list (map (max 0) (sleeps tr))
   \<and> int (length (sleeps tr')) + 1 - int (calls tr') = int (length (sleeps tr)) - int (calls tr)"
proof (induction fuel arbitrary: b tr)
  case 0
  then show ?case by (simp add: doRetryNotify_loop.simps)
next
  case (Suc fuel)
  from Suc.prems show ?case
    apply (subst (asm) doRetryNotify_loop.simps)
    apply (auto simp: Let_def ctx_Err_def ctx_Done_def
        split: prod.splits invocation.splits option.splits if_splits dest!: Suc.IH)
    done
qed

lemma surfaced_classify: "surfaced (classify e) = error_to_caller e"
  by (auto simp: surfaced_def classify_def error_to_caller_def Permanent_def
      split: option.splits error.splits)

lemma surfaced_TransientError:
  "surfaced (Some (TransientError x)) = error_to_caller (Some (TransientError x))"
  by (simp add: surfaced_def error_to_caller_def)

lemma error_to_caller_plain [simp]:
  "error_to_caller (Some (ErrorString s)) = Some (ErrorString s)"
  "error_to_caller (Some (TransientError (Some (ErrorString s))))
     = Some (TransientError (Some (ErrorString s)))"
  by (simp_all add: error_to_caller_def)

lemma fst_withEmptyData:
  "fst (withEmptyData g i) = map_invocation (\<lambda>err. ((), err)) (fst (g i))"
  by (simp add: withEmptyData_def split: prod.splits)

lemma snd_withEmptyData [simp]: "snd (withEmptyData g i) = snd (g i)"
  by (simp add: withEmptyData_def split: prod.splits)

lemma snd_Retry_f [simp]: "snd (Retry_f g i) = snd (g i)"
  by (simp add: Retry_f_def split: prod.splits invocation.splits)

lemma snd_RetryWithData_f [simp]: "snd (RetryWithData_f g i) = snd (g i)"
  by (simp add: RetryWithData_f_def split: prod.splits invocation.splits panic_value.splits)

section \<open>A run of failing attempts\<close>




section \<open>The delays of the backoff\<close>

lemma DefaultMaxInterval_eq: "DefaultMaxInterval = 60 * 1000000000"
  by (simp add: DefaultMaxInterval_def Second_def Millisecond_def)

lemma DefaultMaxElapsedTime_eq: "DefaultMaxElapsedTime = 900 * 1000000000"
  by (simp add: DefaultMaxElapsedTime_def Minute_def Second_def Millisecond_def)

lemma expBackoff_fields [simp]:
  "Multiplier (expBackoff now d f) = float64 f"
  "MaxInterval (expBackoff now d f) = DefaultMaxInterval"
  "MaxElapsedTime (expBackoff now d f) = DefaultMaxElapsedTime"
  "currentInterval (expBackoff now d f) = Milliseconds d"
  "startTime (expBackoff now d f) = now"
  by (simp_all add: expBackoff_eq)

lemma interval_step:
  "interval conv eb (Suc j) = currentInterval (incrementCurrentInterval conv ((incrementCurrentInterval conv ^^ j) eb))"
  by (simp add: interval_def)

lemma interval_delay: "interval conv (expBackoff now d f) i = delay conv d f i"
proof (induction i)
  case 0
  show ?case by simp
next
  case (Suc i)
  have cur: "currentInterval ((incrementCurrentInterval conv ^^ i) (expBackoff now d f)) = delay conv d f i"
    using Suc.IH by (simp add: interval_def)
  show ?case
    unfolding interval_step
    by (simp add: incrementCurrentInterval_def cur DefaultMaxInterval_eq)
qed

lemma Milliseconds_nowrap:
  assumes "1000000 * uint d < 2 ^ 63"
  shows "Milliseconds d = 1000000 * uint d"
proof -
  have c: "uint (1000000 :: 64 word) = 1000000" by simp
  have "(2 :: int) ^ 63 < 2 ^ LENGTH(64)" by simp
  with assms have "uint (1000000 :: 64 word) * uint d < 2 ^ LENGTH(64)"
    unfolding c by (rule less_trans)
  then have "uint (1000000 * d) = uint (1000000 :: 64 word) * uint d"
    by (rule uint_mult_lem [THEN iffD1])
  then have u: "uint (1000000 * d) = 1000000 * uint d"
    unfolding c .
  have "sint (1000000 * d) = signed_take_bit 63 (uint (1000000 * d))"
    by (simp add: sint_uint)
  also have "\<dots> = 1000000 * uint d"
    unfolding u
  proof (rule signed_take_bit_int_eq_self)
    have "(0 :: int) \<le> 1000000 * uint d" by simp
    moreover have "- ((2 :: int) ^ 63) \<le> 0" by simp
    ultimately show "- (2 ^ 63) \<le> 1000000 * uint d" by (rule order_trans [rotated])
    show "1000000 * uint d < 2 ^ 63" by (rule assms)
  qed
  finally show ?thesis by (simp add: Milliseconds_def)
qed

lemma min_min_mult:
  fixes a M k :: int
  assumes "0 \<le> M" and "k = 0 \<or> 1 \<le> k"
  shows "min (min a M * k) M = min (a * k) M"
proof (cases "k = 0")
  case True
  then show ?thesis by simp
next
  case False
  with assms(2) have k: "1 \<le> k" by simp
  have "M * 1 \<le> M * k" using k assms(1) by (rule mult_left_mono)
  then have M: "M \<le> M * k" by simp
  show ?thesis
  proof (cases "a \<le> M")
    case True
    then have "min a M = a" by simp
    then show ?thesis by simp
  next
    case False
    then have eq: "min a M = M" by simp
    from False k have "M * k \<le> a * k" by (intro mult_right_mono) simp_all
    with M have "M \<le> a * k" by (rule order_trans)
    then have "min (a * k) M = M" by simp
    moreover have "min (M * k) M = M" using M by simp
    ultimately show ?thesis unfolding eq by simp
  qed
qed

lemma amended_delay_nonneg: "0 \<le> amended_delay d m i"
  by (simp add: amended_delay_def)

lemma amended_delay_less:
  assumes "1000000 * uint d < 2 ^ 63"
  shows "amended_delay d m i < 2 ^ 63"
proof (cases i)
  case 0
  with assms show ?thesis by (simp add: amended_delay_def)
next
  case (Suc j)
  have "min (1000000 * uint d * int m ^ i) (60 * 1000000000) \<le> 60 * 1000000000"
    by (rule min.cobounded2)
  then show ?thesis using Suc by (simp add: amended_delay_def)
qed

lemma amended_delay_Suc:
  "amended_delay d m (Suc i) = min (amended_delay d m i * int m) (60 * 1000000000)"
proof (cases i)
  case 0
  then show ?thesis by (simp add: amended_delay_def)
next
  case (Suc j)
  have m: "int m = 0 \<or> 1 \<le> int m" by linarith
  have "min (min (1000000 * uint d * int m ^ Suc j) (60 * 1000000000) * int m) (60 * 1000000000)
        = min (1000000 * uint d * int m ^ Suc j * int m) (60 * 1000000000)"
    by (rule min_min_mult [OF _ m]) simp
  then show ?thesis
    using Suc by (simp add: amended_delay_def mult.assoc mult.left_commute mult.commute)
qed

lemma delay_whole:
  assumes "1000000 * uint d < 2 ^ 63" and "real m \<le> 2 ^ 53"
  shows "delay conv d (real m) i = amended_delay d m i"
proof (induction i)
  case 0
  show ?case by (simp add: amended_delay_def Milliseconds_nowrap [OF assms(1)])
next
  case (Suc i)
  have "delay conv d (real m) (Suc i)
        = (if float64 (real m) \<noteq> 0
              \<and> float64 (of_int (amended_delay d m i)) \<ge> float64 (60000000000 / float64 (real m))
           then 60000000000
           else Duration_of_float conv (float64 (float64 (of_int (amended_delay d m i)) * float64 (real m))))"
    by (simp only: delay.simps Suc.IH)
  also have "\<dots> = min (amended_delay d m i * int m) 60000000000"
    by (rule whole_step [OF amended_delay_nonneg amended_delay_less [OF assms(1)] assms(2)])
  finally show ?case by (simp add: amended_delay_Suc)
qed

lemma within_time_limit_sum:
  assumes nonneg: "\<forall>i<k. 0 \<le> delays i"
      and budget: "(\<Sum>i<k. int (durations i)) + (\<Sum>i<k. delays i) \<le> 900 * 1000000000"
      and j: "j < k"
  shows "within_time_limit delays durations j"
proof -
  let ?e = "(\<Sum>i\<le>j. int (durations i)) + (\<Sum>i<j. max 0 (delays i))"
  have dj: "0 \<le> delays j" using nonneg j by simp
  have m: "(\<Sum>i<j. max 0 (delays i)) = (\<Sum>i<j. delays i)"
    using nonneg j by (intro sum.cong) simp_all
  have e0: "0 \<le> ?e" by (intro add_nonneg_nonneg sum_nonneg) simp_all
  have "(\<Sum>i\<le>j. int (durations i)) \<le> (\<Sum>i<k. int (durations i))"
    using j by (intro sum_mono2) auto
  moreover have "(\<Sum>i\<le>j. delays i) \<le> (\<Sum>i<k. delays i)"
    using j nonneg by (intro sum_mono2) auto
  moreover have "(\<Sum>i\<le>j. delays i) = (\<Sum>i<j. delays i) + delays j"
    by (simp add: lessThan_Suc_atMost [symmetric])
  ultimately have le: "?e + delays j \<le> 900 * 1000000000"
    using budget unfolding m by linarith
  have ts: "Time_Sub ?e 0 = ?e"
    using e0 le dj by (intro trans [OF Time_Sub_id]) simp_all
  have "int64 (?e + delays j) = ?e + delays j"
    using e0 le dj by (intro int64_id) simp_all
  with le dj show ?thesis
    unfolding within_time_limit_def ts by (simp add: Stop_def DefaultMaxElapsedTime_eq)
qed

text \<open>
  Whatever the factor, no delay is negative when the first one is not, so then the
  proviso \<open>within_time_limit\<close> holds as soon as the durations of the failing invocations
  and the delays add up to at most 15 minutes.
\<close>

lemma delay_step_bounds:
  fixes c :: int and \<phi> :: real
  assumes c0: "0 \<le> c"
  shows "0 \<le> (if \<phi> \<noteq> 0 \<and> float64 (of_int c) \<ge> float64 (60000000000 / \<phi>)
               then 60000000000
               else Duration_of_float conv (float64 (float64 (of_int c) * \<phi>)))
       \<and> (if \<phi> \<noteq> 0 \<and> float64 (of_int c) \<ge> float64 (60000000000 / \<phi>)
               then 60000000000
               else Duration_of_float conv (float64 (float64 (of_int c) * \<phi>))) \<le> 2 ^ 37"
proof -
  let ?C = "float64 (real_of_int c)"
  let ?x = "60000000000 / \<phi>"
  have C0: "0 \<le> ?C" using c0 by (intro float64_nonneg) simp
  show ?thesis
  proof (cases "\<phi> \<noteq> 0 \<and> float64 ?x \<le> ?C")
    case True
    then show ?thesis by simp
  next
    case False
    have "0 \<le> Duration_of_float conv (float64 (?C * \<phi>))
          \<and> Duration_of_float conv (float64 (?C * \<phi>)) \<le> 2 ^ 37"
    proof (cases "\<phi> = 0 \<or> c = 0")
      case True
      then show ?thesis by auto
    next
      case nz: False
      then have c1: "1 \<le> real_of_int c" using c0 by simp
      have phi_pos: "0 < \<phi>"
      proof (rule ccontr)
        assume "\<not> 0 < \<phi>"
        with nz have "\<phi> < 0" by simp
        then have "?x \<le> 0" by (simp add: divide_nonneg_neg divide_le_0_iff)
        then have "float64 ?x \<le> 0" by (rule float64_nonpos)
        with C0 have "float64 ?x \<le> ?C" by (rule order_trans [rotated])
        with False nz show False by simp
      qed
      have lt: "?C < float64 ?x" using False nz by simp
      have Chalf: "1 / 2 \<le> ?C"
        using float64_half_le [OF c1] c1 by linarith
      have x_ge: "1 / 4 \<le> ?x"
      proof (rule ccontr)
        assume "\<not> 1 / 4 \<le> ?x"
        then have "?x < 1 / 4" by simp
        moreover have "0 \<le> ?x" using phi_pos by simp
        ultimately have "float64 ?x \<le> 1 / 2" by (intro float64_small)
        with lt Chalf show False by linarith
      qed
      have "float64 ?x \<le> 3 * ?x / 2" using x_ge by (rule float64_le_three_halves)
      with lt have "?C < 3 * ?x / 2" by linarith
      then have "?C * \<phi> < 3 * ?x / 2 * \<phi>"
        using phi_pos by (simp only: mult_less_cancel_right_pos)
      also have "3 * ?x / 2 * \<phi> = 90000000000"
        using phi_pos by simp
      finally have p_lt: "?C * \<phi> < 90000000000" .
      have p_pos: "0 < ?C * \<phi>" using Chalf phi_pos by (intro mult_pos_pos) linarith+
      have "\<bar>?C * \<phi>\<bar> < 2 powi (0 + 53)" using p_lt p_pos by simp
      moreover have "?C * \<phi> \<noteq> 0" using p_pos by (rule less_imp_neq [THEN not_sym])
      ultimately have q: "float64_quantum (?C * \<phi>) \<le> 0"
        by (intro float64_quantum_le) simp_all
      have "(2 :: real) ^ 37 = real_of_int (2 ^ 37) * 2 powi 0" by simp
      moreover have "?C * \<phi> \<le> 2 ^ 37" using p_lt by simp
      ultimately have up: "float64 (?C * \<phi>) \<le> 2 ^ 37"
        using q by (intro float64_le_grid [where a = "2 ^ 37" and p = 0])
      have low: "0 \<le> float64 (?C * \<phi>)" using p_pos by (intro float64_nonneg) simp
      have fl: "\<lfloor>float64 (?C * \<phi>)\<rfloor> \<le> 2 ^ 37"
      proof -
        have "\<lfloor>float64 (?C * \<phi>)\<rfloor> \<le> \<lfloor>(2 :: real) ^ 37\<rfloor>" using up by (rule floor_mono)
        then show ?thesis by simp
      qed
      have fl0: "0 \<le> \<lfloor>float64 (?C * \<phi>)\<rfloor>" using low by simp
      show ?thesis
        using low fl fl0 by (simp add: Duration_of_float_def Let_def)
    qed
    with False show ?thesis by (simp only: if_False)
  qed
qed

lemma delay_bounds:
  assumes "0 \<le> Milliseconds d"
  shows "0 \<le> delay conv d f i \<and> delay conv d f i \<le> max (Milliseconds d) (2 ^ 37)"
proof (induction i)
  case 0
  with assms show ?case by simp
next
  case (Suc i)
  from Suc.IH have c0: "0 \<le> delay conv d f i" by simp
  from delay_step_bounds [OF c0, of "float64 f" conv] show ?case
    by (simp only: delay.simps) (simp add: max_def)
qed

lemma within_time_limit_budget:
  assumes "0 \<le> Milliseconds d"
      and "(\<Sum>i<k. int (durations i)) + (\<Sum>i<k. delay conv d f i) \<le> 900 * 1000000000"
      and "j < k"
  shows "within_time_limit (delay conv d f) durations j"
  using assms(2,3)
  by (intro within_time_limit_sum [where k = k]) (simp_all add: delay_bounds [OF assms(1)] del: delay.simps)

section \<open>Failing attempts under the policy of \<^verbatim>\<open>Retry\<close>\<close>







section \<open>Running the model on concrete inputs\<close>

text \<open>
  Fuel given as a numeral is unfolded one invocation at a time, without passing
  through \<open>Suc\<close>. The rounding is computed from its definition.
\<close>

lemmas loop_numeral =
  doRetryNotify_loop.simps(2) [of "pred_numeral k" for k, folded numeral_eq_Suc]

lemma Milliseconds_1000 [simp]: "Milliseconds 1000 = 1000000000"
  by (simp add: Milliseconds_def)

lemma Milliseconds_1 [simp]: "Milliseconds 1 = 1000000"
  by (simp add: Milliseconds_def)

lemma bitlen_1 [simp]: "bitlen 1 = 1"
  by (subst compute_bitlen) simp

lemma bitlen_numeral: "bitlen (numeral k) = bitlen (numeral k div 2) + 1"
  by (subst compute_bitlen) simp

lemmas float64_eval =
  float64_def float64_quantum_def float64_exponent_def round_half_even_def Let_def
  power_int_minus_divide bitlen_numeral

lemmas run_simps =
  Retry_loop RetryWithData_loop loop_numeral doRetryNotify_loop.simps withEmptyData_def
  Retry_f_def RetryWithData_f_def classify_def Permanent_def tries_def expBackoff_eq
  ExponentialBackOff_NextBackOff_def getRandomValueFromInterval_def incrementCurrentInterval_def
  Duration_of_float_def int64_def Time_Sub_def DefaultMaxInterval_def DefaultMaxElapsedTime_def
  Second_def Minute_def Millisecond_def Stop_def Let_def ctx_Err_def ctx_Done_def

text \<open>
  With a factor that is not a whole number the interval is cut to whole nanoseconds at
  every step: a delay of 1 ms and the factor 1.5 give an eighth delay of 17085937 ns,
  where \<open>1.5 ^ 7\<close> ms is 17085937.5 ns.
\<close>

lemma float64_half [simp]:
  assumes "(numeral k :: int) < 2 ^ 53"
  shows "float64 (numeral k / 2) = numeral k / 2"
proof -
  have "\<bar>numeral k / 2 :: real\<bar> < 2 powi (- 1 + 53)"
  proof -
    have "real_of_int (numeral k) < real_of_int (2 ^ 53)" using assms by (simp only: of_int_less_iff)
    then show ?thesis by simp
  qed
  then have "float64_quantum (numeral k / 2) \<le> - 1"
    by (intro float64_quantum_le) simp_all
  moreover have "(numeral k / 2 :: real) = real_of_int (numeral k) * 2 powi (- 1)"
    by (simp add: power_int_minus_divide)
  ultimately show ?thesis by (rule float64_exact [rotated])
qed

lemma Retry_delay_truncated:
  "Retry 9 amd64 0 (\<lambda>_. 0)
      (\<lambda>i. if i < 8 then (Returns (Some (ErrorString ''Transient error!'')), 0) else (Returns None, 0))
      1 (3 / 2) 10
     = Some (Returns None,
             \<lparr>calls = 9,
              sleeps = [1000000, 1500000, 2250000, 3375000, 5062500, 7593750, 11390625, 17085937],
              clock = 49257812\<rparr>)"
  by (simp add: run_simps)

text \<open>
  With a factor that \<^verbatim>\<open>float64\<close> does not hold exactly, the rounding shows: the factor
  0.7 is the \<^verbatim>\<open>float64\<close> \<open>3152519739159347 / 2 ^ 52\<close>, just below 0.7, and a delay of
  11 ms gives a second delay of 7699999 ns, where \<open>11 * 0.7\<close> ms is 7700000 ns.
\<close>

lemma float64_7_10: "float64 (7 / 10) = 3152519739159347 / 2 ^ 52"
  by (simp add: float64_eval)

lemma Retry_delay_rounded:
  "Retry 3 amd64 0 (\<lambda>_. 0)
      (\<lambda>i. if i < 2 then (Returns (Some (ErrorString ''Transient error!'')), 0) else (Returns None, 0))
      11 (7 / 10) 10
     = Some (Returns None, \<lparr>calls = 3, sleeps = [11000000, 7699999], clock = 18699999\<rparr>)"
  by (simp add: run_simps Milliseconds_def float64_eval)

text \<open>
  The \<^verbatim>\<open>int64\<close> arithmetic shows with a very large \<open>minDelay\<close>: 67634987146256071 ms
  wrap to \<open>2 ^ 63 - 64\<close> ns. When the first invocation has taken 100 ns, elapsed time
  plus this delay wraps to a negative number, the limit of 15 minutes is not seen as
  passed, and the loop sleeps for these 292 years.
\<close>

lemma Retry_delay_wraps:
  "Retry 2 amd64 0 (\<lambda>_. 0)
      (\<lambda>i. if i < 1 then (Returns (Some (ErrorString ''Transient error!'')), 100) else (Returns None, 100))
      67634987146256071 2 3
     = Some (Returns None,
             \<lparr>calls = 2, sleeps = [9223372036854775744], clock = 9223372036854775944\<rparr>)"
  by (simp add: run_simps Milliseconds_def float64_eval)

text \<open>
  \<^verbatim>\<open>RetryWithData\<close> on an operation that panics every time: each panic is recovered
  and counts as a transient failure, so with \<open>maxTries = 3\<close> the operation is invoked
  four times and the caller gets the \<^verbatim>\<open>TransientError\<close> built around the last panic.
\<close>

lemma RetryWithData_retries_after_panic:
  "RetryWithData 4 amd64 0 (\<lambda>_. 0)
      (\<lambda>_. (Panics (PanicOther ''boom'') :: (nat option \<times> error option) invocation, 0)) 1000 2 3
     = Some (Returns (None, Some (TransientError (Some (ErrorString ''panicked: <nil>'')))),
             \<lparr>calls = 4, sleeps = [1000000000, 2000000000, 4000000000], clock = 7000000000\<rparr>)"
  by (simp add: run_simps)

text \<open>
  What a context that is done would do to the loop, were one attached with the library's
  \<^verbatim>\<open>WithContext\<close> (here: done after half a second): the first sleep is cut short and the
  loop returns the context's error. Neither \<^verbatim>\<open>Retry\<close> nor \<^verbatim>\<open>RetryWithData\<close> attaches one.
\<close>

lemma library_context_cancels:
  "doRetryNotify 4 amd64 (\<lambda>_. 0) (\<lambda>_. (Returns ((), Some (ErrorString ''Transient error!'')), 0))
     (BackOffContext (maxRetriesBackoff 0 1000 2 3) (DoneAt 500000000))
     \<lparr>calls = 0, sleeps = [], clock = 0\<rparr>
   = Some (Returns ((), Some Canceled), \<lparr>calls = 1, sleeps = [1000000000], clock = 500000000\<rparr>)"
  apply (simp add: doRetryNotify_def maxRetriesBackoff_tries tries_def expBackoff_eq
      ExponentialBackOff_Reset_def)
  apply (simp add: loop_numeral Let_def ExponentialBackOff_NextBackOff_def
      getRandomValueFromInterval_def ctx_Done_def ctx_Err_def incrementCurrentInterval_def
      DefaultMaxElapsedTime_eq DefaultMaxInterval_eq Stop_def int64_def Time_Sub_def
      Duration_of_float_def)
  done

section \<open>The elapsed-time limit\<close>

text \<open>
  Under the default \<^verbatim>\<open>MaxElapsedTime\<close> the loop returns, whatever the operation does, once
  the delays alone add up to more than the limit, as long as the time elapsed stays
  within what an \<^verbatim>\<open>int64\<close> holds, 292 years. With a delay of 1000 ms and factor 2 that
  is the case within 20 invocations, for every such operation and also with
  \<open>maxTries = 0\<close>.
\<close>

lemma loop_stops_on_elapsed:
  assumes rf: "RandomizationFactor eb = 0"
      and M: "MaxElapsedTime eb \<noteq> 0"
      and nonneg: "\<forall>i\<le>k. 0 \<le> interval conv eb i"
      and start: "startTime eb \<le> clock tr"
      and over: "MaxElapsedTime eb < clock tr - startTime eb + (\<Sum>i\<le>k. interval conv eb i)"
      and nowrap: "clock tr - startTime eb + (\<Sum>i\<le>k. int (snd (f (calls tr + i))))
                     + (\<Sum>i\<le>k. interval conv eb i) < 2 ^ 63"
  shows "\<exists>r tr'. doRetryNotify_loop (Suc k) conv rand Background f (tries n t eb) tr = Some (r, tr')"
  using assms
proof (induction k arbitrary: eb tr t)
  case 0
  obtain r dur where op: "f (calls tr) = (r, dur)" by (cases "f (calls tr)")
  let ?e = "clock tr + int dur - startTime eb"
  have c0: "0 \<le> currentInterval eb" using "0.prems"(3) by simp
  have e0: "0 \<le> ?e" using "0.prems"(4) by simp
  have lt: "?e + currentInterval eb < 2 ^ 63" using "0.prems"(6) op by simp
  have ts: "Time_Sub (clock tr + int dur) (startTime eb) = ?e"
    using e0 lt c0 by (intro Time_Sub_id) simp_all
  have i64: "int64 (?e + currentInterval eb) = ?e + currentInterval eb"
    using e0 lt c0 by (intro int64_id) simp_all
  from "0.prems"(5) have "MaxElapsedTime eb < ?e + currentInterval eb"
    by simp
  then show ?case
    using op "0.prems"(1,2)
    by (subst doRetryNotify_loop.simps)
       (simp add: Let_def NextBackOff_tries ctx_Err_def ctx_Done_def ts i64
          split: prod.splits invocation.splits option.splits)
next
  case (Suc k)
  let ?eb = "incrementCurrentInterval conv eb"
  obtain r dur where op: "f (calls tr) = (r, dur)" by (cases "f (calls tr)")
  have sumI: "(\<Sum>i\<le>Suc k. interval conv eb i) = currentInterval eb + (\<Sum>i\<le>k. interval conv ?eb i)"
    by (subst sum.atMost_Suc_shift) (simp add: interval_Suc)
  have sumD: "(\<Sum>i\<le>Suc k. int (snd (f (calls tr + i))))
              = int dur + (\<Sum>i\<le>k. int (snd (f (Suc (calls tr) + i))))"
    by (subst sum.atMost_Suc_shift) (simp add: op)
  have c0: "0 \<le> currentInterval eb" using Suc.prems(3) by force
  have ih: "\<exists>r tr'. doRetryNotify_loop (Suc k) conv rand Background f (tries n (Suc t) ?eb)
               (tr\<lparr>calls := Suc (calls tr), sleeps := sleeps tr @ [currentInterval eb],
                   clock := clock tr + int dur + max 0 (currentInterval eb)\<rparr>) = Some (r, tr')"
  proof (rule Suc.IH)
    show "RandomizationFactor ?eb = 0" using Suc.prems(1) by simp
    show "MaxElapsedTime ?eb \<noteq> 0" using Suc.prems(2) by simp
    show "\<forall>i\<le>k. 0 \<le> interval conv ?eb i"
      using Suc.prems(3) by (auto simp: interval_Suc [symmetric])
    show "startTime ?eb
            \<le> clock (tr\<lparr>calls := Suc (calls tr), sleeps := sleeps tr @ [currentInterval eb],
                        clock := clock tr + int dur + max 0 (currentInterval eb)\<rparr>)"
      using Suc.prems(4) c0 by simp
    show "MaxElapsedTime ?eb
            < clock (tr\<lparr>calls := Suc (calls tr), sleeps := sleeps tr @ [currentInterval eb],
                        clock := clock tr + int dur + max 0 (currentInterval eb)\<rparr>)
              - startTime ?eb + (\<Sum>i\<le>k. interval conv ?eb i)"
      using Suc.prems(5) c0 unfolding sumI by simp
    show "clock (tr\<lparr>calls := Suc (calls tr), sleeps := sleeps tr @ [currentInterval eb],
                    clock := clock tr + int dur + max 0 (currentInterval eb)\<rparr>)
            - startTime ?eb
            + (\<Sum>i\<le>k. int (snd (f (calls (tr\<lparr>calls := Suc (calls tr),
                                                  sleeps := sleeps tr @ [currentInterval eb],
                                                  clock := clock tr + int dur + max 0 (currentInterval eb)\<rparr>) + i))))
            + (\<Sum>i\<le>k. interval conv ?eb i) < 2 ^ 63"
      using Suc.prems(6) c0 unfolding sumI sumD by simp
  qed
  show ?case
    apply (subst doRetryNotify_loop.simps)
    using op Suc.prems(1) ih
    apply (auto simp: Let_def NextBackOff_tries ctx_Err_def ctx_Done_def
          split: prod.splits invocation.splits option.splits)
    done
qed

lemma sum_amended_delay_1000_2: "(\<Sum>i\<le>19. amended_delay 1000 2 i) = 903000000000"
proof -
  have "{..19::nat} = set [0..<20]" by auto
  then have "(\<Sum>i\<le>19. amended_delay 1000 2 i) = sum_list (map (amended_delay 1000 2) [0..<20])"
    by (simp add: sum_list_distinct_conv_sum_set del: upt_Suc)
  also have "\<dots> = 903000000000"
    by (simp add: upt_rec amended_delay_def)
  finally show ?thesis .
qed

lemma interval_amended_delay:
  assumes "1000000 * uint d < 2 ^ 63" and "real m \<le> 2 ^ 53"
  shows "interval conv (expBackoff now d (real m)) i = amended_delay d m i"
  by (simp only: interval_delay delay_whole [OF assms])

lemma Retry_1000_2_unbounded_always_stops:
  assumes "(\<Sum>i\<le>19. int (snd (functionToRetry i))) < 9000000000000000000"
  shows "\<exists>r tr. Retry 20 conv now rand functionToRetry 1000 2 0 = Some (r, tr)"
proof -
  let ?eb = "expBackoff now 1000 2"
  have nowrap: "1000000 * uint (1000 :: 64 word) < 2 ^ 63" by simp
  have iv: "interval conv ?eb i = amended_delay 1000 2 i" for i
    using interval_amended_delay [OF nowrap, of 2 conv now i] by simp
  have sum_iv: "(\<Sum>i\<le>19. interval conv ?eb i) = 903000000000"
    by (simp only: iv sum_amended_delay_1000_2)
  have "\<exists>r tr'. doRetryNotify_loop (Suc 19) conv rand Background (withEmptyData (Retry_f functionToRetry))
          (tries (unat (0 :: 64 word)) 0 ?eb) \<lparr>calls = 0, sleeps = [], clock = now\<rparr> = Some (r, tr')"
  proof (rule loop_stops_on_elapsed)
    show "RandomizationFactor ?eb = 0" by simp
    show "MaxElapsedTime ?eb \<noteq> 0" by (simp add: DefaultMaxElapsedTime_eq)
    show "\<forall>i\<le>19. 0 \<le> interval conv ?eb i" using iv amended_delay_nonneg by simp
    show "startTime ?eb \<le> clock \<lparr>calls = 0, sleeps = [], clock = now\<rparr>" by simp
    show "MaxElapsedTime ?eb
            < clock \<lparr>calls = 0, sleeps = [], clock = now\<rparr> - startTime ?eb + (\<Sum>i\<le>19. interval conv ?eb i)"
      by (simp add: sum_iv DefaultMaxElapsedTime_eq)
    show "clock \<lparr>calls = 0, sleeps = [], clock = now\<rparr> - startTime ?eb
            + (\<Sum>i\<le>19. int (snd (withEmptyData (Retry_f functionToRetry)
                                       (calls \<lparr>calls = 0, sleeps = [], clock = now\<rparr> + i))))
            + (\<Sum>i\<le>19. interval conv ?eb i) < 2 ^ 63"
      using assms by (simp add: sum_iv)
  qed
  then show ?thesis
    unfolding Retry_loop by auto
qed

section \<open>The claims\<close>

text \<open>
  C1. When the first invocation of the operation returns a \<^verbatim>\<open>PermanentError\<close>, \<^verbatim>\<open>Retry\<close>
  and \<^verbatim>\<open>RetryWithData\<close> return after that one invocation, without any sleep, whatever
  \<open>maxTries\<close>, \<open>minDelay\<close> and \<open>factor\<close> are; what they return is the \<^verbatim>\<open>Inner\<close> error.
\<close>

theorem Retry_permanent_first_invoked_once:
  assumes "functionToRetry 0 = (Returns (Some (PermanentError Inner)), dur)"
      and "functionWithData 0 = (Returns (val, Some (PermanentError Inner')), dur')"
  shows "Retry (Suc fuel) conv now rand functionToRetry minDelay factor maxTries
           = Some (Returns Inner, \<lparr>calls = 1, sleeps = [], clock = now + int dur\<rparr>)
       \<and> RetryWithData (Suc fuel) conv now rand functionWithData minDelay factor maxTries
           = Some (Returns (val, Inner'), \<lparr>calls = 1, sleeps = [], clock = now + int dur'\<rparr>)"
  using assms
  by (cases Inner; cases Inner')
     (simp_all add: Retry_loop RetryWithData_loop doRetryNotify_loop.simps withEmptyData_def
        Retry_f_def RetryWithData_f_def classify_def Permanent_def)

theorem Retry_permanent_first_invoked_once_witness:
  "Retry (Suc 4) amd64 0 (\<lambda>_. 0)
      (\<lambda>_. (Returns (Some (PermanentError (Some (ErrorString ''Permanent error!'')))), 0)) 1000 2 3
     = Some (Returns (Some (ErrorString ''Permanent error!'')), \<lparr>calls = 1, sleeps = [], clock = 0\<rparr>)
   \<and> RetryWithData (Suc 4) amd64 0 (\<lambda>_. 0)
      (\<lambda>_. (Returns (Some (0 :: nat), Some (PermanentError (Some (ErrorString ''Permanent error!'')))), 0))
      1000 2 3
     = Some (Returns (Some 0, Some (ErrorString ''Permanent error!'')),
             \<lparr>calls = 1, sleeps = [], clock = 0\<rparr>)"
  using Retry_permanent_first_invoked_once
    [where functionToRetry =
        "\<lambda>_. (Returns (Some (PermanentError (Some (ErrorString ''Permanent error!'')))), 0)"
      and functionWithData =
        "\<lambda>_. (Returns (Some (0 :: nat), Some (PermanentError (Some (ErrorString ''Permanent error!'')))), 0)"
      and fuel = 4 and now = 0 and rand = "\<lambda>_. 0" and minDelay = 1000 and factor = 2]
  by simp

text \<open>
  C2 says that a panic raised inside the operation is caught and turned into a
  transient error by \<^verbatim>\<open>Retry\<close> and by \<^verbatim>\<open>RetryWithData\<close>, so that neither ever lets a
  panic reach its caller. \<^verbatim>\<open>RetryWithData\<close> does so (\<open>RetryWithData_recovers\<close>,
  \<open>RetryWithData_retries_after_panic\<close>). \<^verbatim>\<open>Retry\<close> does not: its closure has no
  \<^verbatim>\<open>recover\<close>, and on an operation that panics the panic of the first invocation
  leaves \<^verbatim>\<open>Retry\<close> as a panic.
\<close>

theorem Retry_propagates_panic:
  "Retry 1 amd64 0 (\<lambda>_. 0) (\<lambda>_. (Panics (PanicOther ''boom''), 0)) 1000 2 3
     = Some (Panics (PanicOther ''boom''), \<lparr>calls = 1, sleeps = [], clock = 0\<rparr>)"
  by (simp add: Retry_loop doRetryNotify_loop.simps withEmptyData_def Retry_f_def)

text \<open>
  C3 says that with \<open>maxTries = 0\<close> an operation that fails transiently every time is
  retried without end. The code departs from it: with a delay of 1000 ms, factor 2 and
  an operation that returns a plain error every time, each invocation taking no time,
  the run stops of its own accord at the 20th invocation and returns the error. By then
  843 s have passed, and the next delay of 60 s would pass the 15 minutes of
  \<^verbatim>\<open>DefaultMaxElapsedTime\<close>, which \<^verbatim>\<open>connection.go\<close> leaves in place. (Invocations that
  take time, less than 285 years in all, only make the run stop sooner:
  \<open>Retry_1000_2_unbounded_always_stops\<close>.)
\<close>

theorem Retry_unbounded_stops_after_max_elapsed_time:
  "Retry 20 amd64 0 (\<lambda>_. 0) (\<lambda>_. (Returns (Some (ErrorString ''Transient error!'')), 0)) 1000 2 0
     = Some (Returns (Some (ErrorString ''Transient error!'')),
             \<lparr>calls = 20,
              sleeps = [1000000000, 2000000000, 4000000000, 8000000000, 16000000000, 32000000000,
                        60000000000, 60000000000, 60000000000, 60000000000, 60000000000,
                        60000000000, 60000000000, 60000000000, 60000000000, 60000000000,
                        60000000000, 60000000000, 60000000000],
              clock = 843000000000\<rparr>)"
  by (simp add: run_simps)




text \<open>
  C5 says that an error of the operation that is not explicitly a \<^verbatim>\<open>PermanentError\<close>, a
  plain error included, is treated as transient: the loop goes on, up to its budget,
  rather than returning the error at once. The doc comment of \<^verbatim>\<open>Retry\<close> says the same:
  ``It will retry calling the function while it returns an error, until the max
  retries.'' The code departs from it when the first delay alone is longer than the 15
  minutes of \<^verbatim>\<open>DefaultMaxElapsedTime\<close>, which \<^verbatim>\<open>connection.go\<close> leaves in place: with
  \<open>minDelay = 900001\<close> ms, factor 2 and \<open>maxTries = 3\<close>, an operation that returns a
  plain error is invoked once and the error is returned at once, with none of the three
  retries that \<open>maxTries\<close> allows. This is the defect of C3. As long as neither
  \<open>maxTries\<close> nor the elapsed-time limit is reached, the loop does go on after such
  an error, any number of times (\<open>loop_failures\<close>, \<open>loop_fail_then_succeed\<close>).
\<close>

theorem Retry_returns_plain_error_at_once:
  "Retry 1 amd64 0 (\<lambda>_. 0) (\<lambda>_. (Returns (Some (ErrorString ''Transient error!'')), 0)) 900001 2 3
     = Some (Returns (Some (ErrorString ''Transient error!'')),
             \<lparr>calls = 1, sleeps = [], clock = 0\<rparr>)"
  by (simp add: run_simps Milliseconds_def)

text \<open>
  C6 as stated fails: with \<open>maxTries = 1\<close> and an operation that returns
  \<^verbatim>\<open>TransientError{Inner: fmt.Errorf("Transient error!")}\<close> every time, the caller
  receives that \<^verbatim>\<open>TransientError\<close> value, wrapper included.
\<close>

theorem Retry_keeps_TransientError_wrapper:
  "Retry 2 amd64 0 (\<lambda>_. 0)
      (\<lambda>_. (Returns (Some (TransientError (Some (ErrorString ''Transient error!'')))), 0)) 1000 2 1
     = Some (Returns (Some (TransientError (Some (ErrorString ''Transient error!'')))),
             \<lparr>calls = 2, sleeps = [1000000000], clock = 1000000000\<rparr>)"
  by (simp add: run_simps)

text \<open>
  C6 amended. When \<^verbatim>\<open>Retry\<close> or \<^verbatim>\<open>RetryWithData\<close> returns, what the caller receives is
  decided by the last invocation of the operation: its value, and \<open>error_to_caller\<close> of
  its error, that is \<^verbatim>\<open>nil\<close> on success, the \<^verbatim>\<open>Inner\<close> error of a \<^verbatim>\<open>PermanentError\<close>
  (wrapper removed), and any other error as the operation returned it, with its
  \<^verbatim>\<open>TransientError\<close> wrapper if it has one. A panic that \<^verbatim>\<open>RetryWithData\<close> recovered from
  comes back as a nil value and the \<^verbatim>\<open>TransientError\<close> built around the panic.
\<close>

theorem Retry_returns_error_of_last_invocation:
  "(Retry fuel conv now rand functionToRetry minDelay factor maxTries = Some (Returns err, tr) \<longrightarrow>
      (\<exists>e. fst (functionToRetry (calls tr - 1)) = Returns e \<and> err = error_to_caller e))
   \<and> (RetryWithData fuel conv now rand functionWithData minDelay factor maxTries
         = Some (Returns (val, err'), tr') \<longrightarrow>
      (\<exists>e. fst (functionWithData (calls tr' - 1)) = Returns (val, e) \<and> err' = error_to_caller e)
      \<or> (\<exists>panic_err. fst (functionWithData (calls tr' - 1)) = Panics (PanicError panic_err)
            \<and> val = None \<and> err' = error_to_caller (Some (TransientError (Some panic_err))))
      \<or> (\<exists>v. fst (functionWithData (calls tr' - 1)) = Panics (PanicOther v)
            \<and> val = None \<and> err' = Some (TransientError (Some (ErrorString ''panicked: <nil>'')))))"
proof (intro conjI impI)
  assume "Retry fuel conv now rand functionToRetry minDelay factor maxTries = Some (Returns err, tr)"
  then obtain r where
    run: "doRetryNotify_loop fuel conv rand Background (withEmptyData (Retry_f functionToRetry))
            (tries (unat maxTries) 0 (expBackoff now minDelay factor))
            \<lparr>calls = 0, sleeps = [], clock = now\<rparr> = Some (r, tr)"
    and r: "map_invocation snd r = Returns err"
    unfolding Retry_loop by auto
  from loop_returns_last [OF run] r
  show "\<exists>e. fst (functionToRetry (calls tr - 1)) = Returns e \<and> err = error_to_caller e"
    by (auto simp: fst_withEmptyData Retry_f_def surfaced_classify
        split: prod.splits invocation.splits)
next
  assume "RetryWithData fuel conv now rand functionWithData minDelay factor maxTries
            = Some (Returns (val, err'), tr')"
  then have
    run: "doRetryNotify_loop fuel conv rand Background (RetryWithData_f functionWithData)
            (tries (unat maxTries) 0 (expBackoff now minDelay factor))
            \<lparr>calls = 0, sleeps = [], clock = now\<rparr> = Some (Returns (val, err'), tr')"
    unfolding RetryWithData_loop .
  from loop_returns_last [OF run]
  show "(\<exists>e. fst (functionWithData (calls tr' - 1)) = Returns (val, e) \<and> err' = error_to_caller e)
      \<or> (\<exists>panic_err. fst (functionWithData (calls tr' - 1)) = Panics (PanicError panic_err)
            \<and> val = None \<and> err' = error_to_caller (Some (TransientError (Some panic_err))))
      \<or> (\<exists>v. fst (functionWithData (calls tr' - 1)) = Panics (PanicOther v)
            \<and> val = None \<and> err' = Some (TransientError (Some (ErrorString ''panicked: <nil>''))))"
    by (auto simp: RetryWithData_f_def surfaced_classify surfaced_TransientError
        split: prod.splits invocation.splits panic_value.splits)
qed

theorem Retry_returns_error_of_last_invocation_witness:
  "Retry 4 amd64 0 (\<lambda>_. 0) (\<lambda>_. (Returns (Some (ErrorString ''Transient error!'')), 0)) 1000 2 3
     = Some (Returns (Some (ErrorString ''Transient error!'')),
             \<lparr>calls = 4, sleeps = [1000000000, 2000000000, 4000000000], clock = 7000000000\<rparr>)
   \<and> (\<exists>e. fst ((\<lambda>_ :: nat. (Returns (Some (ErrorString ''Transient error!'')), 0 :: nat)) (4 - 1))
             = Returns e
          \<and> Some (ErrorString ''Transient error!'') = error_to_caller e)
   \<and> RetryWithData 2 amd64 0 (\<lambda>_. 0)
        (\<lambda>_. (Returns (Some (7 :: nat), Some (TransientError (Some (ErrorString ''Transient error!'')))), 0))
        1000 2 1
     = Some (Returns (Some 7, Some (TransientError (Some (ErrorString ''Transient error!'')))),
             \<lparr>calls = 2, sleeps = [1000000000], clock = 1000000000\<rparr>)
   \<and> (\<exists>e. fst ((\<lambda>_ :: nat. (Returns (Some (7 :: nat), Some (TransientError (Some (ErrorString ''Transient error!'')))), 0 :: nat)) (2 - 1))
             = Returns (Some 7, e)
          \<and> Some (TransientError (Some (ErrorString ''Transient error!''))) = error_to_caller e)"
proof -
  have run: "Retry 4 amd64 0 (\<lambda>_. 0) (\<lambda>_. (Returns (Some (ErrorString ''Transient error!'')), 0)) 1000 2 3
     = Some (Returns (Some (ErrorString ''Transient error!'')),
             \<lparr>calls = 4, sleeps = [1000000000, 2000000000, 4000000000], clock = 7000000000\<rparr>)"
    by (simp add: run_simps)
  have run': "RetryWithData 2 amd64 0 (\<lambda>_. 0)
        (\<lambda>_. (Returns (Some (7 :: nat), Some (TransientError (Some (ErrorString ''Transient error!'')))), 0))
        1000 2 1
     = Some (Returns (Some 7, Some (TransientError (Some (ErrorString ''Transient error!'')))),
             \<lparr>calls = 2, sleeps = [1000000000], clock = 1000000000\<rparr>)"
    by (simp add: run_simps)
  from Retry_returns_error_of_last_invocation [THEN conjunct1, rule_format, OF run]
       Retry_returns_error_of_last_invocation [THEN conjunct2, rule_format, OF run'] run run'
  show ?thesis by simp
qed

text \<open>
  C7 as stated fails: \<^verbatim>\<open>Retry\<close> takes the operation, \<open>minDelay\<close>, \<open>factor\<close> and
  \<open>maxTries\<close> and nothing else, and the backoff it builds carries the background
  context, which has no error at any instant, half a second into the call for one. The
  call below can only run to its end: it sleeps 1 s, 2 s and 4 s in full and returns
  the operation's error after 7 s.
\<close>

theorem Retry_runs_under_background_context:
  "getContext (maxRetriesBackoff 0 1000 2 3) = Background
   \<and> ctx_Err (getContext (maxRetriesBackoff 0 1000 2 3)) 500000000 = None
   \<and> Retry 4 amd64 0 (\<lambda>_. 0) (\<lambda>_. (Returns (Some (ErrorString ''Transient error!'')), 0)) 1000 2 3
     = Some (Returns (Some (ErrorString ''Transient error!'')),
             \<lparr>calls = 4, sleeps = [1000000000, 2000000000, 4000000000], clock = 7000000000\<rparr>)"
  by (simp add: run_simps maxRetriesBackoff_tries)

text \<open>
  C7 amended. \<^verbatim>\<open>Retry\<close> and \<^verbatim>\<open>RetryWithData\<close> accept no deadline or cancellation signal:
  their retry loop runs under the background context, which is never done and has no
  error. So a retry sequence cannot be aborted: in every run that returns, each delay
  between two invocations has been slept in full (the clock has advanced by the
  durations of the invocations and by every delay handed to the timer, and there is
  one delay between any two invocations).
\<close>

theorem Retry_no_cancellation:
  "getContext (maxRetriesBackoff now minDelay factor maxTries) = Background
   \<and> ctx_Err (getContext (maxRetriesBackoff now minDelay factor maxTries)) t = None
   \<and> (Retry fuel conv now rand functionToRetry minDelay factor maxTries = Some (r, tr) \<longrightarrow>
        length (sleeps tr) + 1 = calls tr
        \<and> clock tr = now + (\<Sum>i<calls tr. int (snd (functionToRetry i)))
                        + sum_list (map (max 0) (sleeps tr)))
   \<and> (RetryWithData fuel conv now rand functionWithData minDelay factor maxTries = Some (r', tr') \<longrightarrow>
        length (sleeps tr') + 1 = calls tr'
        \<and> clock tr' = now + (\<Sum>i<calls tr'. int (snd (functionWithData i)))
                         + sum_list (map (max 0) (sleeps tr')))"
proof (intro conjI impI)
  show "getContext (maxRetriesBackoff now minDelay factor maxTries) = Background"
    by (simp add: maxRetriesBackoff_tries)
  show "ctx_Err (getContext (maxRetriesBackoff now minDelay factor maxTries)) t = None"
    by (simp add: maxRetriesBackoff_tries ctx_Err_def ctx_Done_def)
next
  assume "Retry fuel conv now rand functionToRetry minDelay factor maxTries = Some (r, tr)"
  then obtain r0 where
    run: "doRetryNotify_loop fuel conv rand Background (withEmptyData (Retry_f functionToRetry))
            (tries (unat maxTries) 0 (expBackoff now minDelay factor))
            \<lparr>calls = 0, sleeps = [], clock = now\<rparr> = Some (r0, tr)"
    unfolding Retry_loop by auto
  from loop_clock [OF run]
  show "length (sleeps tr) + 1 = calls tr"
    and "clock tr = now + (\<Sum>i<calls tr. int (snd (functionToRetry i)))
                        + sum_list (map (max 0) (sleeps tr))"
    by simp_all
next
  assume "RetryWithData fuel conv now rand functionWithData minDelay factor maxTries = Some (r', tr')"
  then have
    run: "doRetryNotify_loop fuel conv rand Background (RetryWithData_f functionWithData)
            (tries (unat maxTries) 0 (expBackoff now minDelay factor))
            \<lparr>calls = 0, sleeps = [], clock = now\<rparr> = Some (r', tr')"
    unfolding RetryWithData_loop .
  from loop_clock [OF run]
  show "length (sleeps tr') + 1 = calls tr'"
    and "clock tr' = now + (\<Sum>i<calls tr'. int (snd (functionWithData i)))
                        + sum_list (map (max 0) (sleeps tr'))"
    by simp_all
qed

theorem Retry_no_cancellation_witness:
  "Retry 2 amd64 0 (\<lambda>_. 0) (\<lambda>_. (Returns (Some (ErrorString ''Transient error!'')), 500)) 1000 2 1
     = Some (Returns (Some (ErrorString ''Transient error!'')),
             \<lparr>calls = 2, sleeps = [1000000000], clock = 1000001000\<rparr>)
   \<and> length [1000000000 :: int] + 1 = (2 :: nat)
   \<and> (1000001000 :: int)
       = 0 + (\<Sum>i<(2::nat). int (snd ((\<lambda>_ :: nat. (Returns (Some (ErrorString ''Transient error!'')), 500 :: nat)) i)))
           + sum_list (map (max 0) [1000000000])
   \<and> RetryWithData 2 amd64 0 (\<lambda>_. 0)
        (\<lambda>_. (Returns (None :: nat option, Some (ErrorString ''Transient error!'')), 500)) 1000 2 1
     = Some (Returns (None, Some (ErrorString ''Transient error!'')),
             \<lparr>calls = 2, sleeps = [1000000000], clock = 1000001000\<rparr>)
   \<and> (1000001000 :: int)
       = 0 + (\<Sum>i<(2::nat). int (snd ((\<lambda>_ :: nat. (Returns (None :: nat option, Some (ErrorString ''Transient error!'')), 500 :: nat)) i)))
           + sum_list (map (max 0) [1000000000])"
proof -
  have run: "Retry 2 amd64 0 (\<lambda>_. 0) (\<lambda>_. (Returns (Some (ErrorString ''Transient error!'')), 500)) 1000 2 1
     = Some (Returns (Some (ErrorString ''Transient error!'')),
             \<lparr>calls = 2, sleeps = [1000000000], clock = 1000001000\<rparr>)"
    by (simp add: run_simps)
  have run': "RetryWithData 2 amd64 0 (\<lambda>_. 0)
        (\<lambda>_. (Returns (None :: nat option, Some (ErrorString ''Transient error!'')), 500)) 1000 2 1
     = Some (Returns (None, Some (ErrorString ''Transient error!'')),
             \<lparr>calls = 2, sleeps = [1000000000], clock = 1000001000\<rparr>)"
    by (simp add: run_simps)
  from Retry_no_cancellation [THEN conjunct2, THEN conjunct2, THEN conjunct1, rule_format, OF run]
       Retry_no_cancellation [THEN conjunct2, THEN conjunct2, THEN conjunct2, rule_format, OF run']
       run run'
  show ?thesis by simp
qed

text \<open>
  C8. \<^verbatim>\<open>Retry\<close> and \<^verbatim>\<open>RetryWithData\<close> keep nothing from one call to the next: each call
  builds its own backoff object and counter from its arguments, so the model needs no
  state beside them. The only things outside the arguments that the library reads are
  the clock and the random source, and the run does not depend on them: started at
  another clock reading and with another random source, the same operation under the
  same policy gives the same result, the same number of invocations and the same
  delays, with every clock reading shifted by the difference of the starting times.
  (\<open>conv\<close> belongs to the platform the program runs on and is no state either.)
\<close>

theorem Retry_outcome_depends_on_arguments_only:
  "Retry fuel conv now' rand' functionToRetry minDelay factor maxTries
     = map_option (\<lambda>(r, tr). (r, tr\<lparr>clock := clock tr + (now' - now)\<rparr>))
         (Retry fuel conv now rand functionToRetry minDelay factor maxTries)
   \<and> RetryWithData fuel conv now' rand' functionWithData minDelay factor maxTries
     = map_option (\<lambda>(r, tr). (r, tr\<lparr>clock := clock tr + (now' - now)\<rparr>))
         (RetryWithData fuel conv now rand functionWithData minDelay factor maxTries)"
proof -
  have tr: "\<lparr>calls = 0, sleeps = [], clock = now'\<rparr>
          = \<lparr>calls = 0, sleeps = [], clock = now\<rparr>
              \<lparr>clock := clock \<lparr>calls = 0, sleeps = [], clock = now\<rparr> + (now' - now)\<rparr>"
    by simp
  have shift:
    "doRetryNotify_loop fuel conv rand' Background g
       (tries (unat maxTries) 0 (expBackoff now' minDelay factor))
       \<lparr>calls = 0, sleeps = [], clock = now'\<rparr>
     = map_option (\<lambda>(r, tr'). (r, tr'\<lparr>clock := clock tr' + (now' - now)\<rparr>))
         (doRetryNotify_loop fuel conv rand Background g
            (tries (unat maxTries) 0 (expBackoff now minDelay factor))
            \<lparr>calls = 0, sleeps = [], clock = now\<rparr>)"
    for g :: "nat \<Rightarrow> ('c \<times> error option) invocation \<times> nat"
    by (subst expBackoff_shift [of now' _ _ now], subst tr, rule loop_shift) simp
  show ?thesis
    unfolding Retry_loop RetryWithData_loop shift
    by (simp add: option.map_comp comp_def case_prod_unfold)
qed

text \<open>
  C9. \<^verbatim>\<open>PermanentError{x}.Is(e)\<close> holds exactly when \<open>e\<close> is a \<^verbatim>\<open>PermanentError\<close>, and
  \<^verbatim>\<open>TransientError{x}.Is(e)\<close> exactly when \<open>e\<close> is a \<^verbatim>\<open>TransientError\<close>, whatever the
  inner errors are; \<^verbatim>\<open>Unwrap\<close> returns the inner error unchanged, and \<^verbatim>\<open>Error\<close> returns
  the message of the inner error.
\<close>

theorem error_class_matching_by_type:
  "(PermanentError_Is x e \<longleftrightarrow> (\<exists>y. e = Some (PermanentError y)))
   \<and> (TransientError_Is x e \<longleftrightarrow> (\<exists>y. e = Some (TransientError y)))
   \<and> Unwrap (PermanentError x) = x
   \<and> Unwrap (TransientError x) = x
   \<and> PermanentError_Error (Some inner) = Error inner
   \<and> TransientError_Error (Some inner) = Error inner"
  by (auto simp: PermanentError_Is_def TransientError_Is_def PermanentError_Unwrap_def
      TransientError_Unwrap_def PermanentError_Error_def TransientError_Error_def
      split: option.splits error.splits)

text \<open>
  C10. With \<open>maxTries = n > 0\<close>, whatever the operation does, \<^verbatim>\<open>Retry\<close> and
  \<^verbatim>\<open>RetryWithData\<close> return after at most \<open>n + 1\<close> invocations of it: fuel for \<open>n + 1\<close>
  invocations is enough for the run to return, and no run that returns has invoked the
  operation more than \<open>n + 1\<close> times.
\<close>

theorem Retry_at_most_maxTries_plus_one:
  assumes "0 < maxTries"
  shows "(\<exists>r tr. Retry (Suc (unat maxTries)) conv now rand functionToRetry minDelay factor maxTries
                    = Some (r, tr) \<and> calls tr \<le> unat maxTries + 1)
       \<and> (\<forall>fuel r tr. Retry fuel conv now rand functionToRetry minDelay factor maxTries = Some (r, tr)
            \<longrightarrow> calls tr \<le> unat maxTries + 1)
       \<and> (\<exists>r tr. RetryWithData (Suc (unat maxTries)) conv now rand functionWithData minDelay factor maxTries
                    = Some (r, tr) \<and> calls tr \<le> unat maxTries + 1)
       \<and> (\<forall>fuel r tr. RetryWithData fuel conv now rand functionWithData minDelay factor maxTries = Some (r, tr)
            \<longrightarrow> calls tr \<le> unat maxTries + 1)"
proof -
  have n: "0 < unat maxTries" using assms by (simp add: word_greater_zero_iff unat_gt_0)
  note b = loop_tries_bound [OF n, where tr = "\<lparr>calls = 0, sleeps = [], clock = now\<rparr>"
      and eb = "expBackoff now minDelay factor" and rand = rand and conv = conv]
  show ?thesis
    unfolding Retry_loop RetryWithData_loop
    apply (intro conjI)
    using b [where f = "withEmptyData (Retry_f functionToRetry)"] apply force
    using b [where f = "withEmptyData (Retry_f functionToRetry)"] apply force
    using b apply force
    using b apply force
    done
qed

theorem Retry_at_most_maxTries_plus_one_witness:
  "(0 :: 64 word) < 3
   \<and> (\<exists>r tr. Retry 4 amd64 0 (\<lambda>_. 0) (\<lambda>_. (Returns (Some (ErrorString ''Transient error!'')), 0)) 1000 2 3
                = Some (r, tr) \<and> calls tr \<le> 4)
   \<and> (\<exists>r tr. RetryWithData 4 amd64 0 (\<lambda>_. 0)
                (\<lambda>_. (Returns (None :: nat option, Some (ErrorString ''Transient error!'')), 0)) 1000 2 3
                = Some (r, tr) \<and> calls tr \<le> 4)"
  using Retry_at_most_maxTries_plus_one [where maxTries = 3 and conv = amd64 and now = 0
      and rand = "\<lambda>_. 0" and minDelay = 1000 and factor = 2
      and functionToRetry = "\<lambda>_. (Returns (Some (ErrorString ''Transient error!'')), 0)"
      and functionWithData =
        "\<lambda>_. (Returns (None :: nat option, Some (ErrorString ''Transient error!'')), 0)"]
  by simp

end
